theory Spec2Isabelle
  imports Main "HOL-Library.Sublist" "HOL-Library.Char_ord" "HOL-Library.List_Lexorder"
begin

section \<open>The file-context subsystem of agent.py\<close>

text \<open>
  A shallow embedding of \<^verbatim>\<open>agent.py\<close>. Python strings are \<^typ>\<open>string\<close>; one
  \<^typ>\<open>char\<close> stands for one Python character, so the embedding covers text in the
  one-byte range. The module's globals \<^verbatim>\<open>context\<close> and \<^verbatim>\<open>_last_sig\<close> and the
  standard output are the fields of a state record that every operation takes and
  returns. The file system and the language-model client are the environment: what a
  call into them returned (or raised) is an argument of the operation that makes the call.
  An operation that can raise returns the state it leaves behind together with the
  exception. Signals that arrive asynchronously are outside the embedding.
\<close>

subsection \<open>Configuration\<close>

definition MAX_FILE_CHARS :: nat where
  "MAX_FILE_CHARS = 8000"

definition INCLUDE_EXTENSIONS :: "string set" where
  "INCLUDE_EXTENSIONS =
     {''.txt'', ''.md'', ''.py'', ''.json'', ''.yaml'', ''.yml'', ''.tf'', ''.tfvars''}"

definition FILE_CONTEXT_TAG :: string where
  "FILE_CONTEXT_TAG = ''__FILE_CONTEXT__''"

subsection \<open>Data\<close>

text \<open>
  One directory entry as the two loops observe it: its final path component, and what
  \<^verbatim>\<open>is_file()\<close>, \<^verbatim>\<open>stat()\<close> and \<^verbatim>\<open>read_text(encoding="utf-8", errors="replace")\<close>
  give. \<open>Inl\<close> carries the text of the exception raised, \<open>Inr\<close> the value returned:
  for \<^verbatim>\<open>stat\<close> the pair \<^verbatim>\<open>(st_mtime_ns, st_size)\<close>, for \<^verbatim>\<open>read_text\<close> the decoded
  text. \<^verbatim>\<open>is_file()\<close> answers \<^verbatim>\<open>False\<close> for an entry that has vanished (the errors
  ENOENT, ENOTDIR, EBADF and ELOOP of its own \<^verbatim>\<open>stat\<close>) and raises on any other error
  of the operating system, a missing permission for one.
\<close>

record dir_entry =
  name :: string
  is_file :: "string + bool"
  stat :: "string + (int \<times> int)"
  read_text :: "string + string"

text \<open>A \<^verbatim>\<open>Path\<close> of a directory: its \<^verbatim>\<open>str()\<close> and what \<^verbatim>\<open>iterdir()\<close> gives: the
  entries in the order the operating system lists them, or the text of the exception
  raised when the directory cannot be listed. A failure of \<^verbatim>\<open>project_dir()\<close> itself
  happens at the same places with the same effect and is this outcome too.\<close>

record path =
  path_str :: string
  iterdir :: "string + dir_entry list"

text \<open>A conversation entry, the dict \<^verbatim>\<open>{"role": ..., "content": ...}\<close>.\<close>

record msg =
  role :: string
  content :: string

text \<open>The lines printed, kept as structured values: the warning of a skipped file (name
  and exception text), the summary of a build (count, names, directory), the answer
  printed in one-shot mode, and the messages of the read-eval-print loop
  (\<open>Interrupted\<close> is the \<^verbatim>\<open>"\nExiting."\<close> of the exception handler).\<close>

datatype out_line =
    Warn string string
  | Info nat "string list" string
  | Answer string
  | Exiting
  | Interrupted
  | Reloaded
  | Result string

text \<open>The exceptions: the two that the loop of \<^verbatim>\<open>main\<close> handles, and any other one with
  its text. An exception of the file system is of the last kind.\<close>

datatype exn = EOFError | KeyboardInterrupt | Error string

type_synonym signature = "(string \<times> int \<times> int) list"

text \<open>The process state: \<^verbatim>\<open>context\<close>, \<^verbatim>\<open>_last_sig\<close> (\<open>None\<close> is Python's
  \<^verbatim>\<open>None\<close>) and the lines printed so far.\<close>

record state =
  ctx :: "msg list"
  last_sig :: "signature option"
  stdout :: "out_line list"

text \<open>What one turn sees of the world: the working directory as \<^verbatim>\<open>project_dir()\<close> gives
  it to \<^verbatim>\<open>process\<close>, the working directory as the later call of \<^verbatim>\<open>project_dir()\<close> in
  \<^verbatim>\<open>add_initial_file_context\<close> gives it, and the answer of
  \<^verbatim>\<open>client.responses.create(model=MODEL, input=context)\<close> to each possible input.\<close>

record world =
  cwd_sig :: path
  cwd_build :: path
  respond :: "msg list \<Rightarrow> exn + string"

subsection \<open>Strings and paths\<close>

text \<open>\<^verbatim>\<open>str.lower\<close> on the one-byte range: the letters A to Z and the capital letters
  of Latin-1 (192 to 222 without the multiplication sign 215) move up by 32.\<close>

definition lower_char :: "char \<Rightarrow> char" where
  "lower_char c =
     (let n = (of_char c :: nat)
      in if (65 \<le> n \<and> n \<le> 90) \<or> (192 \<le> n \<and> n \<le> 222 \<and> n \<noteq> 215)
         then char_of (n + 32) else c)"

definition lower :: "string \<Rightarrow> string" where
  "lower s = map lower_char s"

text \<open>\<^verbatim>\<open>str.rfind\<close> of one character: the last index where it occurs, \<open>None\<close> for -1.\<close>

fun rfind :: "char \<Rightarrow> string \<Rightarrow> nat option" where
  "rfind c [] = None"
| "rfind c (x # xs) =
     (case rfind c xs of
        Some i \<Rightarrow> Some (Suc i)
      | None \<Rightarrow> if x = c then Some 0 else None)"

text \<open>\<^verbatim>\<open>PurePath.suffix\<close> (as in CPython 3.11 and 3.12): with \<^verbatim>\<open>i = name.rfind('.')\<close>, the text from \<^verbatim>\<open>i\<close> on when
  \<^verbatim>\<open>0 < i < len(name) - 1\<close>, and the empty string otherwise.\<close>

definition path_suffix :: "string \<Rightarrow> string" where
  "path_suffix nm =
     (case rfind CHR ''.'' nm of
        None \<Rightarrow> []
      | Some i \<Rightarrow> if 0 < i \<and> int i < int (length nm) - 1 then drop i nm else [])"

text \<open>\<^verbatim>\<open>"\n".join(blocks)\<close>.\<close>

fun join_nl :: "string list \<Rightarrow> string" where
  "join_nl [] = []"
| "join_nl [b] = b"
| "join_nl (b # bs) = b @ [CHR 0x0A] @ join_nl bs"

text \<open>\<^verbatim>\<open>" ".join(args)\<close>.\<close>

fun join_sp :: "string list \<Rightarrow> string" where
  "join_sp [] = []"
| "join_sp [b] = b"
| "join_sp (b # bs) = b @ '' '' @ join_sp bs"

subsection \<open>build_file_context_message\<close>

text \<open>The f-string \<^verbatim>\<open>f"File: {path.name}\n---\n{content}\n"\<close>.\<close>

definition file_block :: "string \<Rightarrow> string \<Rightarrow> string" where
  "file_block nm text = ''File: '' @ nm @ [CHR 0x0A] @ ''---'' @ [CHR 0x0A] @ text @ [CHR 0x0A]"

text \<open>The \<^verbatim>\<open>for\<close> loop over the sorted paths, with its two lists \<^verbatim>\<open>included\<close> and
  \<^verbatim>\<open>file_blocks\<close> and the warnings printed. \<^verbatim>\<open>is_file()\<close> is called outside the
  \<^verbatim>\<open>try\<close>: when it raises, the loop ends with that exception, and the warnings printed
  so far stay printed. The paths of one directory differ in their last component only,
  so \<^verbatim>\<open>sorted\<close> orders them by name, character by character (POSIX paths); the caller
  passes \<open>sort_key name\<close> of the listing.\<close>

fun build_loop ::
  "string \<Rightarrow> dir_entry list \<Rightarrow> string list \<Rightarrow> string list \<Rightarrow> out_line list \<Rightarrow>
   (exn + string list \<times> string list) \<times> out_line list" where
  "build_loop agent_filename [] included file_blocks printed =
     (Inr (included, file_blocks), printed)"
| "build_loop agent_filename (p # ps) included file_blocks printed =
     (case is_file p of
        Inl e \<Rightarrow> (Inl (Error e), printed)
      | Inr regular \<Rightarrow>
          if \<not> regular then build_loop agent_filename ps included file_blocks printed
          else if name p = agent_filename
            then build_loop agent_filename ps included file_blocks printed
          else if lower (path_suffix (name p)) \<notin> INCLUDE_EXTENSIONS
            then build_loop agent_filename ps included file_blocks printed
          else
            (case read_text p of
               Inr text \<Rightarrow>
                 build_loop agent_filename ps (included @ [name p])
                   (file_blocks @ [file_block (name p) (take MAX_FILE_CHARS text)]) printed
             | Inl e \<Rightarrow>
                 build_loop agent_filename ps included file_blocks
                   (printed @ [Warn (name p) e])))"

text \<open>The text in front of the blocks: tag, directory and the instruction.\<close>

definition briefing_header :: "string \<Rightarrow> string" where
  "briefing_header dir =
     FILE_CONTEXT_TAG @ [CHR 0x0A] @
     ''Project directory: '' @ dir @ [CHR 0x0A] @
     ''You have access to the following files from the project directory. '' @
     ''Use them as context when answering. If the user asks about a file, '' @
     ''prefer quoting the relevant snippet and explaining it.'' @ [CHR 0x0A, CHR 0x0A]"

text \<open>The result is what the function gives (the exception raised, or the message or
  \<open>None\<close> returned) together with the lines printed. The summary line is printed when
  the loop has come to its end.\<close>

definition build_file_context_message ::
  "string \<Rightarrow> path \<Rightarrow> (exn + msg option) \<times> out_line list" where
  "build_file_context_message agent_filename base_dir =
     (case iterdir base_dir of
        Inl e \<Rightarrow> (Inl (Error e), [])
      | Inr listing \<Rightarrow>
          (case build_loop agent_filename (sort_key name listing) [] [] [] of
             (Inl e, printed) \<Rightarrow> (Inl e, printed)
           | (Inr (included, file_blocks), printed) \<Rightarrow>
               (Inr (if file_blocks = [] then None
                     else Some \<lparr>role = ''system'',
                                content = briefing_header (path_str base_dir) @
                                  join_nl file_blocks\<rparr>),
                printed @ [Info (length included) included (path_str base_dir)])))"

subsection \<open>The conversation store\<close>

text \<open>The state left behind, and the exception if the build raised one.\<close>

definition add_initial_file_context :: "string \<Rightarrow> path \<Rightarrow> state \<Rightarrow> state \<times> exn option" where
  "add_initial_file_context agent_filename cwd st =
     (case build_file_context_message agent_filename cwd of
        (Inl e, printed) \<Rightarrow> (st\<lparr>stdout := stdout st @ printed\<rparr>, Some e)
      | (Inr None, printed) \<Rightarrow> (st\<lparr>stdout := stdout st @ printed\<rparr>, None)
      | (Inr (Some m), printed) \<Rightarrow>
          (st\<lparr>ctx := m # ctx st, stdout := stdout st @ printed\<rparr>, None))"

text \<open>The test of the list comprehension in \<^verbatim>\<open>reload_file_context\<close>.\<close>

definition is_file_context :: "msg \<Rightarrow> bool" where
  "is_file_context m \<longleftrightarrow> role m = ''system'' \<and> prefix FILE_CONTEXT_TAG (content m)"

definition reload_file_context :: "string \<Rightarrow> path \<Rightarrow> state \<Rightarrow> state \<times> exn option" where
  "reload_file_context agent_filename cwd st =
     add_initial_file_context agent_filename cwd
       (st\<lparr>ctx := filter (\<lambda>m. \<not> is_file_context m) (ctx st)\<rparr>)"

subsection \<open>directory_signature\<close>

text \<open>The loop with its list \<^verbatim>\<open>sig\<close>. \<^verbatim>\<open>p.is_file()\<close> is the first operand of the
  condition and stands outside the \<^verbatim>\<open>try\<close>; \<^verbatim>\<open>p.stat()\<close> stands inside.\<close>

fun signature_loop :: "string \<Rightarrow> dir_entry list \<Rightarrow> signature \<Rightarrow> exn + signature" where
  "signature_loop agent_filename [] sig = Inr sig"
| "signature_loop agent_filename (p # ps) sig =
     (case is_file p of
        Inl e \<Rightarrow> Inl (Error e)
      | Inr regular \<Rightarrow>
          if regular \<and> name p \<noteq> agent_filename \<and>
             lower (path_suffix (name p)) \<in> INCLUDE_EXTENSIONS
          then
            (case stat p of
               Inr (st_mtime_ns, st_size) \<Rightarrow>
                 signature_loop agent_filename ps (sig @ [(name p, st_mtime_ns, st_size)])
             | Inl e \<Rightarrow> signature_loop agent_filename ps sig)
          else signature_loop agent_filename ps sig)"

definition directory_signature :: "string \<Rightarrow> path \<Rightarrow> exn + signature" where
  "directory_signature agent_filename base_dir =
     (case iterdir base_dir of
        Inl e \<Rightarrow> Inl (Error e)
      | Inr listing \<Rightarrow> signature_loop agent_filename (sort_key name listing) [])"

subsection \<open>process\<close>

text \<open>The new state and what the caller gets: the output text, or the exception raised
  by \<^verbatim>\<open>directory_signature\<close>, by \<^verbatim>\<open>reload_file_context\<close> (then \<^verbatim>\<open>_last_sig\<close> is not
  assigned) or by \<^verbatim>\<open>call()\<close>.\<close>

definition process :: "string \<Rightarrow> world \<Rightarrow> string \<Rightarrow> state \<Rightarrow> state \<times> (exn + string)" where
  "process agent_filename w prompt st =
     (case directory_signature agent_filename (cwd_sig w) of
        Inl e \<Rightarrow> (st, Inl e)
      | Inr sig \<Rightarrow>
          (case (if Some sig \<noteq> last_sig st
                 then (case reload_file_context agent_filename (cwd_build w) st of
                         (st0, Some e) \<Rightarrow> (st0, Some e)
                       | (st0, None) \<Rightarrow> (st0\<lparr>last_sig := Some sig\<rparr>, None))
                 else (st, None)) of
             (st1, Some e) \<Rightarrow> (st1, Inl e)
           | (st1, None) \<Rightarrow>
               (let st2 = st1\<lparr>ctx := ctx st1 @ [\<lparr>role = ''user'', content = prompt\<rparr>]\<rparr>
                in case respond w (ctx st2) of
                     Inl e \<Rightarrow> (st2, Inl e)
                   | Inr output \<Rightarrow>
                       (st2\<lparr>ctx := ctx st2 @ [\<lparr>role = ''assistant'', content = output\<rparr>]\<rparr>,
                        Inr output))))"

subsection \<open>main\<close>

text \<open>\<^verbatim>\<open>str.isspace\<close> on the one-byte range, and \<^verbatim>\<open>str.strip()\<close>.\<close>

definition is_space :: "char \<Rightarrow> bool" where
  "is_space c \<longleftrightarrow>
     (let n = (of_char c :: nat)
      in (9 \<le> n \<and> n \<le> 13) \<or> (28 \<le> n \<and> n \<le> 32) \<or> n = 133 \<or> n = 160)"

definition strip :: "string \<Rightarrow> string" where
  "strip s = rev (dropWhile is_space (rev (dropWhile is_space s)))"

text \<open>How the loop stands after the input read so far: still reading, left by
  \<^verbatim>\<open>break\<close>, or ended by an exception that no handler caught.\<close>

datatype status = Running | Stopped | Raised exn

text \<open>The handler \<^verbatim>\<open>except (EOFError, KeyboardInterrupt)\<close> of the loop: it prints and
  leaves the loop; any other exception goes on to the caller of \<^verbatim>\<open>main\<close>.\<close>

definition handle :: "state \<Rightarrow> exn \<Rightarrow> state \<times> status" where
  "handle st e =
     (if e = EOFError \<or> e = KeyboardInterrupt
      then (st\<lparr>stdout := stdout st @ [Interrupted]\<rparr>, Stopped)
      else (st, Raised e))"

text \<open>The \<^verbatim>\<open>while True\<close> loop over what \<^verbatim>\<open>input("> ")\<close> gives in each pass (a line, or
  the exception it raised), each pass with the world it runs in. The loop is followed
  for as long as there is input.\<close>

fun repl :: "string \<Rightarrow> (world \<times> (exn + string)) list \<Rightarrow> state \<Rightarrow> state \<times> status" where
  "repl agent_filename [] st = (st, Running)"
| "repl agent_filename ((w, inp) # rest) st =
     (case inp of
        Inl e \<Rightarrow> handle st e
      | Inr raw \<Rightarrow>
          (let line = strip raw in
           if line = [] then repl agent_filename rest st
           else if line \<in> {''/exit'', ''/quit''}
             then (st\<lparr>stdout := stdout st @ [Exiting]\<rparr>, Stopped)
           else if line = ''/reload''
             then
               (case reload_file_context agent_filename (cwd_build w) st of
                  (st1, None) \<Rightarrow>
                    repl agent_filename rest (st1\<lparr>stdout := stdout st1 @ [Reloaded]\<rparr>)
                | (st1, Some e) \<Rightarrow> handle st1 e)
           else
             (case process agent_filename w line st of
                (st1, Inr result) \<Rightarrow>
                  repl agent_filename rest (st1\<lparr>stdout := stdout st1 @ [Result result]\<rparr>)
              | (st1, Inl e) \<Rightarrow> handle st1 e)))"

text \<open>The state the module starts in.\<close>

definition initial_state :: state where
  "initial_state = \<lparr>ctx = [], last_sig = None, stdout = []\<rparr>"

text \<open>\<^verbatim>\<open>main\<close>: \<open>cwd0\<close> is the working directory at the first build, \<open>argv\<close> is
  \<^verbatim>\<open>sys.argv\<close>, \<open>w\<close> the world of the one-shot turn. The first build and the one-shot
  turn stand outside the loop's handler.\<close>

definition main ::
  "string \<Rightarrow> path \<Rightarrow> string list \<Rightarrow> world \<Rightarrow> (world \<times> (exn + string)) list \<Rightarrow>
   state \<times> status" where
  "main agent_filename cwd0 argv w inputs =
     (case add_initial_file_context agent_filename cwd0 initial_state of
        (st, Some e) \<Rightarrow> (st, Raised e)
      | (st, None) \<Rightarrow>
          if length argv > 1 then
            (case process agent_filename w (join_sp (tl argv)) st of
               (st1, Inr result) \<Rightarrow> (st1\<lparr>stdout := stdout st1 @ [Answer result]\<rparr>, Stopped)
             | (st1, Inl e) \<Rightarrow> (st1, Raised e))
          else repl agent_filename inputs st)"

text \<open>The number of builds that a run printed the summary of: every call of
  \<^verbatim>\<open>build_file_context_message\<close> that comes to the end of its loop prints one.\<close>

fun is_info :: "out_line \<Rightarrow> bool" where
  "is_info (Info n names dir) = True"
| "is_info l = False"

definition rebuilds :: "out_line list \<Rightarrow> nat" where
  "rebuilds printed = length (filter is_info printed)"

subsection \<open>Auxiliary notions for the proofs\<close>

text \<open>The entries of a listing that could be made; a directory on which neither
  \<^verbatim>\<open>iterdir()\<close> nor any \<^verbatim>\<open>is_file()\<close> raises; the three tests that let a path through to
  the \<^verbatim>\<open>try\<close>; the block that the loop appends for a file it could read; the files that
  it could read; the outcome of a build as a list of at most one message; the names and
  texts of the files that a build loads; and the end of a turn, from the user entry on.\<close>

definition entries :: "path \<Rightarrow> dir_entry list" where
  "entries d = (case iterdir d of Inl e \<Rightarrow> [] | Inr listing \<Rightarrow> listing)"

definition answers :: "path \<Rightarrow> bool" where
  "answers d \<longleftrightarrow> \<not> isl (iterdir d) \<and> list_all (\<lambda>p. \<not> isl (is_file p)) (entries d)"

definition eligible :: "string \<Rightarrow> dir_entry \<Rightarrow> bool" where
  "eligible a p \<longleftrightarrow>
     is_file p = Inr True \<and> name p \<noteq> a \<and> lower (path_suffix (name p)) \<in> INCLUDE_EXTENSIONS"

definition block_of :: "dir_entry \<Rightarrow> string" where
  "block_of p = file_block (name p) (take MAX_FILE_CHARS (projr (read_text p)))"

definition readable :: "string \<Rightarrow> dir_entry \<Rightarrow> bool" where
  "readable a p \<longleftrightarrow> eligible a p \<and> \<not> isl (read_text p)"

definition briefing_of :: "string \<Rightarrow> path \<Rightarrow> msg list" where
  "briefing_of a d =
     (case fst (build_file_context_message a d) of Inr (Some m) \<Rightarrow> [m] | _ \<Rightarrow> [])"

definition loaded_files :: "string \<Rightarrow> path \<Rightarrow> (string \<times> string) list" where
  "loaded_files a d =
     map (\<lambda>p. (name p, projr (read_text p))) (filter (readable a) (entries d))"

definition turn_end :: "world \<Rightarrow> string \<Rightarrow> state \<Rightarrow> state \<times> (exn + string)" where
  "turn_end w prompt st1 =
     (case respond w (ctx st1 @ [\<lparr>role = ''user'', content = prompt\<rparr>]) of
        Inl e \<Rightarrow> (st1\<lparr>ctx := ctx st1 @ [\<lparr>role = ''user'', content = prompt\<rparr>]\<rparr>, Inl e)
      | Inr output \<Rightarrow>
          (st1\<lparr>ctx := ctx st1 @ [\<lparr>role = ''user'', content = prompt\<rparr>,
                                  \<lparr>role = ''assistant'', content = output\<rparr>]\<rparr>, Inr output))"

subsection \<open>Example inputs\<close>

text \<open>A project directory with two files, the same directory after one of them is
  deleted, worlds in which the model answers or fails, and the briefing of the project
  directory written out.\<close>

definition a_md :: dir_entry where
  "a_md =
     \<lparr>name = ''a.md'', is_file = Inr True, stat = Inr (1000, 5), read_text = Inr ''hello''\<rparr>"

definition notes_txt :: dir_entry where
  "notes_txt =
     \<lparr>name = ''notes.txt'', is_file = Inr True, stat = Inr (2000, 5),
      read_text = Inr ''world''\<rparr>"

definition project :: path where
  "project = \<lparr>path_str = ''/home/user/project'', iterdir = Inr [notes_txt, a_md]\<rparr>"

definition project_without_notes :: path where
  "project_without_notes = \<lparr>path_str = ''/home/user/project'', iterdir = Inr [a_md]\<rparr>"

definition replying :: "path \<Rightarrow> world" where
  "replying d = \<lparr>cwd_sig = d, cwd_build = d, respond = (\<lambda>input. Inr ''reply'')\<rparr>"

definition failing :: "path \<Rightarrow> world" where
  "failing d = \<lparr>cwd_sig = d, cwd_build = d, respond = (\<lambda>input. Inl (Error ''timeout''))\<rparr>"

definition briefing_hello_world :: msg where
  "briefing_hello_world =
     \<lparr>role = ''system'',
      content =
        ''__FILE_CONTEXT__'' @ [CHR 0x0A] @
        ''Project directory: /home/user/project'' @ [CHR 0x0A] @
        ''You have access to the following files from the project directory. '' @
        ''Use them as context when answering. If the user asks about a file, '' @
        ''prefer quoting the relevant snippet and explaining it.'' @ [CHR 0x0A, CHR 0x0A] @
        ''File: a.md'' @ [CHR 0x0A] @ ''---'' @ [CHR 0x0A] @ ''hello'' @ [CHR 0x0A] @
        [CHR 0x0A] @
        ''File: notes.txt'' @ [CHR 0x0A] @ ''---'' @ [CHR 0x0A] @ ''world'' @ [CHR 0x0A]\<rparr>"

text \<open>The project directory listed in another order, with other modification times
  and with a file that is not eligible; a file longer than the cap and a directory
  holding it; a directory where nothing can be loaded; a directory with one entry of
  every kind; a file on which \<^verbatim>\<open>is_file()\<close> raises for want of a permission, and its
  directory; and a system entry that starts with the tag without being a briefing.\<close>

definition project_relisted :: path where
  "project_relisted =
     \<lparr>path_str = ''/home/user/project'',
      iterdir = Inr
        [a_md\<lparr>stat := Inr (7000, 5)\<rparr>,
         \<lparr>name = ''photo.png'', is_file = Inr True, stat = Inr (10, 999), read_text = Inr ''PNG''\<rparr>,
         notes_txt]\<rparr>"

definition big_txt :: dir_entry where
  "big_txt =
     \<lparr>name = ''big.txt'', is_file = Inr True, stat = Inr (3000, 8001),
      read_text = Inr (replicate 8001 CHR ''x'')\<rparr>"

definition long_project :: path where
  "long_project = \<lparr>path_str = ''/home/user/project'', iterdir = Inr [notes_txt, big_txt]\<rparr>"

definition locked_project :: path where
  "locked_project =
     \<lparr>path_str = ''/home/user/locked'',
      iterdir = Inr
        [\<lparr>name = ''secret.txt'', is_file = Inr True, stat = Inr (1, 3),
            read_text = Inl ''Permission denied''\<rparr>,
         \<lparr>name = ''agent.py'', is_file = Inr True, stat = Inr (2, 4), read_text = Inr ''code''\<rparr>,
         \<lparr>name = ''docs.md'', is_file = Inr False, stat = Inr (3, 0),
            read_text = Inl ''Is a directory''\<rparr>]\<rparr>"

definition mixed_project :: path where
  "mixed_project =
     \<lparr>path_str = ''/home/user/mixed'',
      iterdir = Inr
        [\<lparr>name = ''notes.txt'', is_file = Inr True, stat = Inr (2000, 5),
            read_text = Inr ''world''\<rparr>,
         \<lparr>name = ''gone.json'', is_file = Inr True, stat = Inl ''No such file or directory'',
            read_text = Inl ''No such file or directory''\<rparr>,
         \<lparr>name = ''lost.yaml'', is_file = Inr False, stat = Inl ''No such file or directory'',
            read_text = Inl ''No such file or directory''\<rparr>,
         \<lparr>name = ''agent.py'', is_file = Inr True, stat = Inr (2, 4), read_text = Inr ''code''\<rparr>,
         \<lparr>name = ''README.MD'', is_file = Inr True, stat = Inr (500, 12),
            read_text = Inr ''# Title''\<rparr>,
         \<lparr>name = ''photo.png'', is_file = Inr True, stat = Inr (10, 999), read_text = Inr ''PNG''\<rparr>,
         \<lparr>name = ''sub.yml'', is_file = Inr False, stat = Inr (3, 0),
            read_text = Inl ''Is a directory''\<rparr>,
         \<lparr>name = ''.tf'', is_file = Inr True, stat = Inr (4, 1), read_text = Inr ''x''\<rparr>]\<rparr>"

definition guarded_txt :: dir_entry where
  "guarded_txt =
     \<lparr>name = ''guarded.txt'', is_file = Inl ''Permission denied'',
      stat = Inl ''Permission denied'', read_text = Inl ''Permission denied''\<rparr>"

definition guarded_project :: path where
  "guarded_project = \<lparr>path_str = ''/home/user/guarded'', iterdir = Inr [a_md, guarded_txt]\<rparr>"

definition foreign_entry :: msg where
  "foreign_entry = \<lparr>role = ''system'', content = ''__FILE_CONTEXT__ is how briefings start''\<rparr>"

section \<open>Properties\<close>

subsection \<open>The loops as maps and filters\<close>

lemma build_loop_eq:
  "list_all (\<lambda>p. \<not> isl (is_file p)) ps \<Longrightarrow>
   build_loop a ps inc bl pr =
     (Inr (inc @ map name (filter (readable a) ps),
           bl @ map block_of (filter (readable a) ps)),
      pr @ map (\<lambda>p. Warn (name p) (projl (read_text p)))
             (filter (\<lambda>p. eligible a p \<and> isl (read_text p)) ps))"
  by (induction ps arbitrary: inc bl pr)
     (auto simp: eligible_def readable_def block_of_def split: sum.splits)

lemma build_loop_rebuilds: "rebuilds (snd (build_loop a ps inc bl pr)) = rebuilds pr"
  by (induction ps arbitrary: inc bl pr) (auto simp: rebuilds_def split: sum.splits)

lemma signature_loop_eq:
  "list_all (\<lambda>p. \<not> isl (is_file p)) ps \<Longrightarrow>
   signature_loop a ps sig =
     Inr (sig @ map (\<lambda>p. (name p, projr (stat p)))
             (filter (\<lambda>p. eligible a p \<and> \<not> isl (stat p)) ps))"
  by (induction ps arbitrary: sig) (auto simp: eligible_def split: sum.splits)

lemma list_all_sort_key: "list_all P (sort_key f xs) = list_all P xs"
  by (simp add: list_all_iff)

lemma answers_iterdir: "answers d \<Longrightarrow> iterdir d = Inr (entries d)"
  by (cases "iterdir d") (simp_all add: answers_def entries_def)

lemma build_fst:
  assumes "answers d"
  shows "fst (build_file_context_message a d) =
     Inr (if filter (readable a) (entries d) = [] then None
          else Some \<lparr>role = ''system'',
                 content = briefing_header (path_str d) @
                   join_nl (map block_of (filter (readable a) (sort_key name (entries d))))\<rparr>)"
proof -
  have e: "filter (readable a) (sort_key name (entries d)) = [] \<longleftrightarrow>
      filter (readable a) (entries d) = []"
    by (simp add: filter_empty_conv)
  have l: "list_all (\<lambda>p. \<not> isl (is_file p)) (sort_key name (entries d))"
    using assms by (simp add: answers_def list_all_sort_key)
  show ?thesis
    using e by (simp add: build_file_context_message_def answers_iterdir [OF assms]
        build_loop_eq [OF l])
qed

lemma build_snd:
  assumes "answers d"
  shows "snd (build_file_context_message a d) =
     map (\<lambda>p. Warn (name p) (projl (read_text p)))
       (filter (\<lambda>p. eligible a p \<and> isl (read_text p)) (sort_key name (entries d))) @
     [Info (length (filter (readable a) (entries d)))
        (map name (filter (readable a) (sort_key name (entries d)))) (path_str d)]"
proof -
  have n: "length (filter (readable a) (sort_key name (entries d))) =
      length (filter (readable a) (entries d))"
    by (simp add: filter_sort)
  have l: "list_all (\<lambda>p. \<not> isl (is_file p)) (sort_key name (entries d))"
    using assms by (simp add: answers_def list_all_sort_key)
  show ?thesis
    using n by (simp add: build_file_context_message_def answers_iterdir [OF assms]
        build_loop_eq [OF l])
qed

lemma rebuilds_append: "rebuilds (xs @ ys) = rebuilds xs + rebuilds ys"
  by (simp add: rebuilds_def)

lemma rebuilds_build:
  "rebuilds (snd (build_file_context_message a d)) =
     (if isl (fst (build_file_context_message a d)) then 0 else 1)"
proof (cases "iterdir d")
  case (Inl e)
  then show ?thesis by (simp add: build_file_context_message_def rebuilds_def)
next
  case (Inr listing)
  obtain r pr where b: "build_loop a (sort_key name listing) [] [] [] = (r, pr)"
    by (cases "build_loop a (sort_key name listing) [] [] []")
  have "rebuilds pr = 0"
    using build_loop_rebuilds [of a "sort_key name listing" "[]" "[]" "[]"] b
    by (simp add: rebuilds_def)
  then show ?thesis
    using Inr b by (cases r) (auto simp: build_file_context_message_def rebuilds_append rebuilds_def)
qed

lemma header_tagged: "prefix FILE_CONTEXT_TAG (briefing_header dir @ rest)"
  by (simp add: briefing_header_def)

lemma build_tagged:
  "fst (build_file_context_message a d) = Inr (Some m) \<Longrightarrow> is_file_context m"
  by (auto simp: build_file_context_message_def is_file_context_def header_tagged
      split: sum.splits prod.splits if_splits)

lemma briefing_of_tagged: "filter is_file_context (briefing_of a d) = briefing_of a d"
  by (auto simp: briefing_of_def build_tagged split: option.splits sum.splits)

lemma briefing_of_untagged: "filter (\<lambda>m. \<not> is_file_context m) (briefing_of a d) = []"
  by (auto simp: briefing_of_def build_tagged split: option.splits sum.splits)

subsection \<open>The store after a build\<close>

lemma add_initial_ctx:
  "ctx (fst (add_initial_file_context a d st)) = briefing_of a d @ ctx st"
  by (cases "build_file_context_message a d")
     (auto simp: add_initial_file_context_def briefing_of_def split: option.splits sum.splits)


lemma add_initial_stdout:
  "stdout (fst (add_initial_file_context a d st)) =
     stdout st @ snd (build_file_context_message a d)"
  by (cases "build_file_context_message a d")
     (auto simp: add_initial_file_context_def split: option.splits sum.splits)

lemma add_initial_snd:
  "snd (add_initial_file_context a d st) =
     (case fst (build_file_context_message a d) of Inl e \<Rightarrow> Some e | Inr r \<Rightarrow> None)"
  by (cases "build_file_context_message a d")
     (auto simp: add_initial_file_context_def split: option.splits sum.splits)

lemma reload_ctx:
  "ctx (fst (reload_file_context a d st)) =
     briefing_of a d @ filter (\<lambda>m. \<not> is_file_context m) (ctx st)"
  by (simp add: reload_file_context_def add_initial_ctx)


lemma reload_stdout:
  "stdout (fst (reload_file_context a d st)) = stdout st @ snd (build_file_context_message a d)"
  by (simp add: reload_file_context_def add_initial_stdout)

lemma reload_snd:
  "snd (reload_file_context a d st) =
     (case fst (build_file_context_message a d) of Inl e \<Rightarrow> Some e | Inr r \<Rightarrow> None)"
  by (simp add: reload_file_context_def add_initial_snd)

lemma reload_rebuilds:
  "rebuilds (stdout (fst (reload_file_context a d st))) =
     rebuilds (stdout st) + (if isl (fst (build_file_context_message a d)) then 0 else 1)"
  by (simp add: reload_stdout rebuilds_append rebuilds_build)

lemma filter_tl_none: "filter P xs = [] \<Longrightarrow> filter P (tl xs) = []"
  by (cases xs) (auto split: if_splits)

lemma length_briefing_of: "length (briefing_of a d) \<le> 1"
  by (simp add: briefing_of_def split: option.splits sum.splits)

lemma tl_briefing_append:
  "filter is_file_context (tl (briefing_of a d @ filter (\<lambda>m. \<not> is_file_context m) xs)) = []"
proof (cases "briefing_of a d")
  case Nil
  then show ?thesis by (simp add: filter_tl_none)
next
  case (Cons m ms)
  with length_briefing_of [of a d] have "ms = []" by simp
  with Cons show ?thesis by simp
qed

lemma filter_tl_append:
  "filter P (tl xs) = [] \<Longrightarrow> filter P ys = [] \<Longrightarrow> filter P (tl (xs @ ys)) = []"
  by (cases xs) (simp_all add: filter_tl_none)

lemma reload_inv: "filter is_file_context (tl (ctx (fst (reload_file_context a d st)))) = []"
  by (simp add: reload_ctx tl_briefing_append)

lemma reload_untagged:
  "filter (\<lambda>m. \<not> is_file_context m) (ctx (fst (reload_file_context a d st))) =
     filter (\<lambda>m. \<not> is_file_context m) (ctx st)"
  by (simp add: reload_ctx briefing_of_untagged)

lemma user_untagged [simp]: "\<not> is_file_context \<lparr>role = ''user'', content = c\<rparr>"
  by (simp add: is_file_context_def)

lemma assistant_untagged [simp]: "\<not> is_file_context \<lparr>role = ''assistant'', content = c\<rparr>"
  by (simp add: is_file_context_def)

subsection \<open>The four ways through a turn\<close>

lemma process_signature_raises:
  "directory_signature a (cwd_sig w) = Inl e \<Longrightarrow> process a w p st = (st, Inl e)"
  by (simp add: process_def)

lemma process_fresh:
  "directory_signature a (cwd_sig w) = Inr sig \<Longrightarrow> last_sig st = Some sig \<Longrightarrow>
   process a w p st = turn_end w p st"
  by (simp add: process_def turn_end_def Let_def split: sum.splits)

lemma process_reload_raises:
  assumes "directory_signature a (cwd_sig w) = Inr sig" and "last_sig st \<noteq> Some sig"
    and "fst (build_file_context_message a (cwd_build w)) = Inl e"
  shows "process a w p st = (fst (reload_file_context a (cwd_build w) st), Inl e)"
proof -
  have "snd (reload_file_context a (cwd_build w) st) = Some e"
    using assms(3) by (simp add: reload_snd)
  then obtain st0 where "reload_file_context a (cwd_build w) st = (st0, Some e)"
    by (cases "reload_file_context a (cwd_build w) st") simp
  moreover have "Some sig \<noteq> last_sig st" using assms(2) by auto
  ultimately show ?thesis
    using assms(1) by (simp add: process_def)
qed

lemma process_stale:
  assumes "directory_signature a (cwd_sig w) = Inr sig" and "last_sig st \<noteq> Some sig"
    and "fst (build_file_context_message a (cwd_build w)) = Inr r"
  shows "process a w p st =
     turn_end w p ((fst (reload_file_context a (cwd_build w) st))\<lparr>last_sig := Some sig\<rparr>)"
proof -
  have "snd (reload_file_context a (cwd_build w) st) = None"
    using assms(3) by (simp add: reload_snd)
  then obtain st0 where "reload_file_context a (cwd_build w) st = (st0, None)"
    by (cases "reload_file_context a (cwd_build w) st") simp
  moreover have "Some sig \<noteq> last_sig st" using assms(2) by auto
  ultimately show ?thesis
    using assms(1) by (simp add: process_def turn_end_def Let_def split: sum.splits)
qed

lemma turn_end_ctx:
  "ctx (fst (turn_end w p st)) =
     ctx st @ [\<lparr>role = ''user'', content = p\<rparr>] @
       (case snd (turn_end w p st) of
          Inl e \<Rightarrow> []
        | Inr output \<Rightarrow> [\<lparr>role = ''assistant'', content = output\<rparr>])"
  by (simp add: turn_end_def split: sum.splits)

lemma turn_end_rest:
  "last_sig (fst (turn_end w p st)) = last_sig st"
  "stdout (fst (turn_end w p st)) = stdout st"
  by (simp_all add: turn_end_def split: sum.splits)

lemma turn_end_snd:
  "snd (turn_end w p st) = respond w (ctx st @ [\<lparr>role = ''user'', content = p\<rparr>])"
  by (simp add: turn_end_def split: sum.splits)

lemma process_shape:
  "(\<exists>e. process a w p st = (st, Inl e)) \<or>
   process a w p st = turn_end w p st \<or>
   (\<exists>e. process a w p st = (fst (reload_file_context a (cwd_build w) st), Inl e)) \<or>
   (\<exists>sig. process a w p st =
      turn_end w p ((fst (reload_file_context a (cwd_build w) st))\<lparr>last_sig := Some sig\<rparr>))"
proof (cases "directory_signature a (cwd_sig w)")
  case (Inl e)
  then show ?thesis by (simp add: process_signature_raises)
next
  case (Inr sig)
  show ?thesis
  proof (cases "last_sig st = Some sig")
    case True
    with Inr show ?thesis by (simp add: process_fresh)
  next
    case False
    show ?thesis
    proof (cases "fst (build_file_context_message a (cwd_build w))")
      case (Inl e)
      from process_reload_raises [OF Inr False Inl] show ?thesis by blast
    next
      case r: (Inr r)
      from process_stale [OF Inr False r] show ?thesis by blast
    qed
  qed
qed

lemma process_inv:
  assumes "filter is_file_context (tl (ctx st)) = []"
  shows "filter is_file_context (tl (ctx (fst (process a w p st)))) = []"
proof -
  have t: "filter is_file_context (tl (ctx (fst (turn_end w p s)))) = []"
    if "filter is_file_context (tl (ctx s)) = []" for s
    using that by (simp add: turn_end_def filter_tl_append split: sum.splits)
  from process_shape [of a w p st] show ?thesis
    using assms t [OF assms] t [OF reload_inv [of a "cwd_build w" st]] reload_inv [of a "cwd_build w" st]
    by (elim disjE exE) (simp_all add: t)
qed

lemma process_untagged_prefix:
  "prefix (filter (\<lambda>m. \<not> is_file_context m) (ctx st))
     (filter (\<lambda>m. \<not> is_file_context m) (ctx (fst (process a w p st))))"
proof -
  have t: "prefix (filter (\<lambda>m. \<not> is_file_context m) (ctx s))
      (filter (\<lambda>m. \<not> is_file_context m) (ctx (fst (turn_end w p s))))" for s
    by (simp add: turn_end_def split: sum.splits)
  from process_shape [of a w p st] show ?thesis
    using t [of st] t [of "(fst (reload_file_context a (cwd_build w) st))\<lparr>last_sig := Some sig\<rparr>" for sig]
    by (elim disjE exE) (simp_all add: reload_untagged)
qed

lemma process_inv_pair:
  "filter is_file_context (tl (ctx st)) = [] \<Longrightarrow> process a w p st = (st1, r) \<Longrightarrow>
   filter is_file_context (tl (ctx st1)) = []"
  using process_inv [of st a w p] by simp

lemma process_untagged_pair:
  "process a w p st = (st1, r) \<Longrightarrow>
   prefix (filter (\<lambda>m. \<not> is_file_context m) (ctx st)) (filter (\<lambda>m. \<not> is_file_context m) (ctx st1))"
  using process_untagged_prefix [of st a w p] by simp

lemma process_fresh_facts:
  assumes "directory_signature a (cwd_sig w) = Inr sig" and "last_sig st = Some sig"
  shows "ctx (fst (process a w p st)) =
           ctx st @ [\<lparr>role = ''user'', content = p\<rparr>] @
             (case snd (process a w p st) of
                Inl e \<Rightarrow> []
              | Inr output \<Rightarrow> [\<lparr>role = ''assistant'', content = output\<rparr>])"
    and "stdout (fst (process a w p st)) = stdout st"
    and "last_sig (fst (process a w p st)) = Some sig"
    and "snd (process a w p st) = respond w (ctx st @ [\<lparr>role = ''user'', content = p\<rparr>])"
  using assms
  by (simp_all add: process_fresh [OF assms] turn_end_ctx turn_end_rest turn_end_snd)

lemma process_stale_facts:
  assumes "directory_signature a (cwd_sig w) = Inr sig" and "last_sig st \<noteq> Some sig"
    and "fst (build_file_context_message a (cwd_build w)) = Inr r"
  shows "ctx (fst (process a w p st)) =
           (case r of None \<Rightarrow> [] | Some m \<Rightarrow> [m]) @
           filter (\<lambda>m. \<not> is_file_context m) (ctx st) @ [\<lparr>role = ''user'', content = p\<rparr>] @
             (case snd (process a w p st) of
                Inl e \<Rightarrow> []
              | Inr output \<Rightarrow> [\<lparr>role = ''assistant'', content = output\<rparr>])"
    and "stdout (fst (process a w p st)) =
           stdout st @ snd (build_file_context_message a (cwd_build w))"
    and "last_sig (fst (process a w p st)) = Some sig"
    and "snd (process a w p st) =
           respond w (ctx (fst (reload_file_context a (cwd_build w) st)) @
             [\<lparr>role = ''user'', content = p\<rparr>])"
proof -
  have b: "briefing_of a (cwd_build w) = (case r of None \<Rightarrow> [] | Some m \<Rightarrow> [m])"
    using assms(3) by (simp add: briefing_of_def split: option.splits)
  show "ctx (fst (process a w p st)) =
           (case r of None \<Rightarrow> [] | Some m \<Rightarrow> [m]) @
           filter (\<lambda>m. \<not> is_file_context m) (ctx st) @ [\<lparr>role = ''user'', content = p\<rparr>] @
             (case snd (process a w p st) of
                Inl e \<Rightarrow> []
              | Inr output \<Rightarrow> [\<lparr>role = ''assistant'', content = output\<rparr>])"
    by (simp add: process_stale [OF assms] turn_end_ctx reload_ctx b)
  show "stdout (fst (process a w p st)) =
           stdout st @ snd (build_file_context_message a (cwd_build w))"
    by (simp add: process_stale [OF assms] turn_end_rest reload_stdout)
  show "last_sig (fst (process a w p st)) = Some sig"
    by (simp add: process_stale [OF assms] turn_end_rest)
  show "snd (process a w p st) =
           respond w (ctx (fst (reload_file_context a (cwd_build w) st)) @
             [\<lparr>role = ''user'', content = p\<rparr>])"
    by (simp add: process_stale [OF assms] turn_end_snd)
qed

lemma rebuilds_returned:
  "fst (build_file_context_message a d) = Inr r \<Longrightarrow>
   rebuilds (xs @ snd (build_file_context_message a d)) = rebuilds xs + 1"
  by (simp add: rebuilds_append rebuilds_build)

lemma tagged_not_assistant: "is_file_context m \<Longrightarrow> role m \<noteq> ''assistant''"
  by (auto simp: is_file_context_def)

lemma briefing_of_no_assistant:
  "filter (\<lambda>m. role m = ''assistant'') (briefing_of a d) = []"
proof (cases "briefing_of a d")
  case Nil
  then show ?thesis by simp
next
  case (Cons m ms)
  have "\<forall>x \<in> set (briefing_of a d). is_file_context x"
    using briefing_of_tagged [of a d] by (simp only: filter_id_conv)
  with Cons have "is_file_context m" by simp
  moreover from Cons length_briefing_of [of a d] have "ms = []" by simp
  ultimately show ?thesis using Cons by (simp add: tagged_not_assistant)
qed

lemma untagged_assistant:
  "filter (\<lambda>m. role m = ''assistant'') (filter (\<lambda>m. \<not> is_file_context m) xs) =
   filter (\<lambda>m. role m = ''assistant'') xs"
  by (induction xs) (auto dest: tagged_not_assistant)

subsection \<open>The loop of main\<close>

lemma handle_ctx [simp]: "ctx (fst (handle st e)) = ctx st"
  by (simp add: handle_def)

lemma handle_not_running [simp]: "snd (handle st e) \<noteq> Running"
  by (simp add: handle_def)

lemma reload_inv_pair:
  "reload_file_context a d st = (st1, r) \<Longrightarrow> filter is_file_context (tl (ctx st1)) = []"
  using reload_inv [of a d st] by simp

lemma reload_untagged_pair:
  "reload_file_context a d st = (st1, r) \<Longrightarrow>
   filter (\<lambda>m. \<not> is_file_context m) (ctx st1) = filter (\<lambda>m. \<not> is_file_context m) (ctx st)"
  using reload_untagged [of a d st] by simp

lemma repl_inv:
  "filter is_file_context (tl (ctx st)) = [] \<Longrightarrow>
   filter is_file_context (tl (ctx (fst (repl a inputs st)))) = []"
proof (induction inputs arbitrary: st)
  case Nil
  then show ?case by simp
next
  case (Cons x rest)
  obtain w inp where x: "x = (w, inp)" by (cases x)
  show ?case
    using Cons.prems
    by (auto simp: x Let_def split: sum.splits prod.splits option.splits
        intro!: Cons.IH dest: process_inv_pair reload_inv_pair)
qed

lemma repl_untagged:
  "prefix (filter (\<lambda>m. \<not> is_file_context m) (ctx st))
     (filter (\<lambda>m. \<not> is_file_context m) (ctx (fst (repl a inputs st))))"
proof (induction inputs arbitrary: st)
  case Nil
  then show ?case by simp
next
  case (Cons x rest)
  obtain w inp where x: "x = (w, inp)" by (cases x)
  have step: "\<And>st1. prefix (filter (\<lambda>m. \<not> is_file_context m) (ctx st))
                         (filter (\<lambda>m. \<not> is_file_context m) (ctx st1)) \<Longrightarrow>
      prefix (filter (\<lambda>m. \<not> is_file_context m) (ctx st))
        (filter (\<lambda>m. \<not> is_file_context m) (ctx (fst (repl a rest st1))))"
    using Cons.IH prefix_order.order_trans by blast
  show ?case
    by (auto simp: x Let_def split: sum.splits prod.splits option.splits
        intro!: step dest: process_untagged_pair reload_untagged_pair)
qed

lemma handle_cases: "handle st e = (st1, s) \<Longrightarrow> s \<noteq> Running"
  using handle_not_running [of st e] by simp

lemma repl_append:
  "repl a (xs @ ys) st =
     (case repl a xs st of (st1, Running) \<Rightarrow> repl a ys st1 | r \<Rightarrow> r)"
proof (induction xs arbitrary: st)
  case Nil
  then show ?case by simp
next
  case (Cons x rest)
  obtain w inp where x: "x = (w, inp)" by (cases x)
  have h: "(case handle s e of (st1, Running) \<Rightarrow> repl a ys st1 | r \<Rightarrow> r) = handle s e" for s e
    by (simp add: handle_def)
  show ?case
    by (auto simp: x Let_def Cons.IH h split: sum.splits prod.splits option.splits status.splits
        dest: handle_cases)
qed

subsection \<open>Sorted listings and joined blocks\<close>

lemma listing_answers:
  "iterdir d = Inr listing \<Longrightarrow> \<forall>p \<in> set listing. \<not> isl (is_file p) \<Longrightarrow>
   answers d \<and> entries d = listing"
  by (simp add: answers_def entries_def list_all_iff)

lemma sorted_loaded:
  "sorted (map name (filter P (sort_key name xs)))"
  by (simp add: sorted_filter)

lemma distinct_loaded:
  "distinct (map name xs) \<Longrightarrow> distinct (map name (filter P (sort_key name xs)))"
  by (auto simp: distinct_map intro: inj_on_subset)

lemma loaded_sorted_unique:
  assumes "distinct (map name (entries d1))" and "distinct (map name (entries d2))"
    and "set (loaded_files a d1) = set (loaded_files a d2)"
  shows "map (\<lambda>p. (name p, projr (read_text p))) (filter (readable a) (sort_key name (entries d1))) =
         map (\<lambda>p. (name p, projr (read_text p))) (filter (readable a) (sort_key name (entries d2)))"
    (is "?L1 = ?L2")
proof (rule map_sorted_distinct_set_unique [where f = fst])
  have m1: "map fst ?L1 = map name (filter (readable a) (sort_key name (entries d1)))"
    by (simp add: comp_def)
  have m2: "map fst ?L2 = map name (filter (readable a) (sort_key name (entries d2)))"
    by (simp add: comp_def)
  show s1: "sorted (map fst ?L1)" unfolding m1 by (rule sorted_loaded)
  show s2: "sorted (map fst ?L2)" unfolding m2 by (rule sorted_loaded)
  show d1: "distinct (map fst ?L1)" unfolding m1 by (rule distinct_loaded [OF assms(1)])
  show d2: "distinct (map fst ?L2)" unfolding m2 by (rule distinct_loaded [OF assms(2)])
  show eq: "set ?L1 = set ?L2"
    using assms(3) by (simp add: loaded_files_def)
  from d1 have "inj_on fst (set ?L1)" by (simp only: distinct_map)
  with eq show "inj_on fst (set ?L1 \<union> set ?L2)" by simp
qed

lemma block_of_pair:
  "map block_of ps =
     map (\<lambda>(n, t). file_block n (take MAX_FILE_CHARS t)) (map (\<lambda>p. (name p, projr (read_text p))) ps)"
  by (simp add: block_of_def comp_def)

lemma join_nl_Cons_concat: "join_nl (b # zs) = b @ concat (map (\<lambda>z. CHR 0x0A # z) zs)"
  by (induction zs arbitrary: b) simp_all

lemma join_nl_concat:
  "join_nl (ys @ b # zs) =
     concat (map (\<lambda>y. y @ [CHR 0x0A]) ys) @ b @ concat (map (\<lambda>z. CHR 0x0A # z) zs)"
proof (induction ys)
  case Nil
  show ?case by (simp add: join_nl_Cons_concat)
next
  case (Cons y ys)
  have "join_nl (y # (ys @ b # zs)) = y @ [CHR 0x0A] @ join_nl (ys @ b # zs)"
    by (cases ys) simp_all
  then show ?case using Cons by simp
qed

lemma blocks_after:
  "concat (map (\<lambda>z. CHR 0x0A # z) (map block_of zs)) = [] \<or>
   prefix ([CHR 0x0A] @ ''File: '') (concat (map (\<lambda>z. CHR 0x0A # z) (map block_of zs)))"
  by (cases zs) (simp_all add: block_of_def file_block_def)

lemma directory_signature_eq:
  assumes "answers d"
  shows "directory_signature a d =
     Inr (map (\<lambda>p. (name p, projr (stat p)))
       (filter (\<lambda>p. eligible a p \<and> \<not> isl (stat p)) (sort_key name (entries d))))"
proof -
  have l: "list_all (\<lambda>p. \<not> isl (is_file p)) (sort_key name (entries d))"
    using assms by (simp add: answers_def list_all_sort_key)
  show ?thesis
    by (simp add: directory_signature_def answers_iterdir [OF assms] signature_loop_eq [OF l])
qed

subsection \<open>The examples evaluated\<close>

lemma project_build:
  "build_file_context_message ''agent.py'' project =
     (Inr (Some briefing_hello_world), [Info 2 [''a.md'', ''notes.txt''] ''/home/user/project''])"
  by code_simp

lemma project_signature:
  "directory_signature ''agent.py'' project = Inr [(''a.md'', 1000, 5), (''notes.txt'', 2000, 5)]"
  by code_simp

lemma project_without_notes_signature:
  "directory_signature ''agent.py'' project_without_notes = Inr [(''a.md'', 1000, 5)]"
  by code_simp

lemma project_without_notes_build:
  "fst (build_file_context_message ''agent.py'' project_without_notes) =
     Inr (Some \<lparr>role = ''system'',
            content = briefing_header ''/home/user/project'' @
              ''File: a.md'' @ [CHR 0x0A] @ ''---'' @ [CHR 0x0A] @ ''hello'' @ [CHR 0x0A]\<rparr>)"
  by code_simp

subsection \<open>The explicit reload command\<close>




subsection \<open>The invariant of the conversation store\<close>

text \<open>
  C2. Whatever the arguments and the input of \<^verbatim>\<open>main\<close> (the first build, then one
  turn in one-shot mode, or any sequence of prompts, \<^verbatim>\<open>/reload\<close> lines and other lines in
  the loop), and whatever raises on the way, the store has no file-context entry after
  index 0, hence at most one such entry, and the other entries only ever grow at the
  end: those present after some input are, in the same order, the first of those present
  after any longer input.
\<close>

theorem store_invariant:
  "filter is_file_context (tl (ctx (fst (main a cwd0 argv w inputs)))) = [] \<and>
   length (filter is_file_context (ctx (fst (main a cwd0 argv w inputs)))) \<le> 1 \<and>
   prefix (filter (\<lambda>m. \<not> is_file_context m) (ctx (fst (main a cwd0 argv w inputs))))
     (filter (\<lambda>m. \<not> is_file_context m) (ctx (fst (main a cwd0 argv w (inputs @ later)))))"
proof -
  obtain st x where ai: "add_initial_file_context a cwd0 initial_state = (st, x)"
    by (cases "add_initial_file_context a cwd0 initial_state")
  have st: "ctx st = briefing_of a cwd0"
    using add_initial_ctx [of a cwd0 initial_state] ai by (simp add: initial_state_def)
  have inv0: "filter is_file_context (tl (ctx st)) = []"
    using tl_briefing_append [of a cwd0 "[]"] by (simp add: st)
  have inv: "filter is_file_context (tl (ctx (fst (main a cwd0 argv w inputs)))) = []"
  proof (cases x)
    case (Some e)
    with ai inv0 show ?thesis by (simp add: main_def)
  next
    case None
    show ?thesis
    proof (cases "length argv > 1")
      case True
      obtain st1 r where p: "process a w (join_sp (tl argv)) st = (st1, r)"
        by (cases "process a w (join_sp (tl argv)) st")
      from process_inv_pair [OF inv0 p] True p None ai show ?thesis
        by (cases r) (simp_all add: main_def)
    next
      case False
      with repl_inv [OF inv0, of a inputs] None ai show ?thesis
        by (simp add: main_def)
    qed
  qed
  have one: "length (filter is_file_context c) \<le> 1" if "filter is_file_context (tl c) = []" for c
    using that by (cases c) simp_all
  have ord: "prefix (filter (\<lambda>m. \<not> is_file_context m) (ctx (fst (main a cwd0 argv w inputs))))
     (filter (\<lambda>m. \<not> is_file_context m) (ctx (fst (main a cwd0 argv w (inputs @ later)))))"
  proof (cases "x = None \<and> \<not> length argv > 1")
    case False
    then show ?thesis using ai by (cases x) (auto simp: main_def)
  next
    case True
    obtain st1 s where r: "repl a inputs st = (st1, s)"
      by (cases "repl a inputs st")
    show ?thesis
    proof (cases s)
      case Running
      with True r ai repl_untagged [of st1 a later] show ?thesis
        by (simp add: main_def repl_append)
    next
      case Stopped
      with True r ai show ?thesis by (simp add: main_def repl_append)
    next
      case (Raised e)
      with True r ai show ?thesis by (simp add: main_def repl_append)
    qed
  qed
  from inv one [OF inv] ord show ?thesis by blast
qed

subsection \<open>Staleness gating\<close>

text \<open>
  C3. Take two turns in a row whose snapshots could be computed, the first of which got
  past its check. When the snapshot that the second turn computes equals the one of the
  first turn, the second turn runs no build: nothing is printed, and its store is the
  store of before followed by the entries of the turn, so the file-context entry stays
  as it is. When the snapshots differ and the build returns, the second turn runs
  exactly one build: the lines of that one build are printed, the store is the result of
  that build (if any) in front of the old entries that are not file context and the
  entries of the turn, and \<^verbatim>\<open>_last_sig\<close> is the fresh snapshot. A turn that finds
  \<^verbatim>\<open>_last_sig\<close> at \<^verbatim>\<open>None\<close> (the first one) does the same.
\<close>

theorem staleness_gating:
  assumes first: "directory_signature a (cwd_sig wa) = Inr sig_a"
    and first_done: "last_sig st = Some sig_a \<or>
      fst (build_file_context_message a (cwd_build wa)) = Inr ra"
    and mid: "sta = fst (process a wa pa st)"
    and second: "directory_signature a (cwd_sig wb) = Inr sig_b"
  shows "(sig_b = sig_a \<longrightarrow>
            ctx (fst (process a wb pb sta)) =
              ctx sta @ [\<lparr>role = ''user'', content = pb\<rparr>] @
                (case snd (process a wb pb sta) of
                   Inl e \<Rightarrow> []
                 | Inr output \<Rightarrow> [\<lparr>role = ''assistant'', content = output\<rparr>]) \<and>
            stdout (fst (process a wb pb sta)) = stdout sta \<and>
            rebuilds (stdout (fst (process a wb pb sta))) = rebuilds (stdout sta) \<and>
            last_sig (fst (process a wb pb sta)) = Some sig_a) \<and>
         (sig_b \<noteq> sig_a \<and> fst (build_file_context_message a (cwd_build wb)) = Inr rb \<longrightarrow>
            ctx (fst (process a wb pb sta)) =
              (case rb of None \<Rightarrow> [] | Some m \<Rightarrow> [m]) @
              filter (\<lambda>m. \<not> is_file_context m) (ctx sta) @
              [\<lparr>role = ''user'', content = pb\<rparr>] @
                (case snd (process a wb pb sta) of
                   Inl e \<Rightarrow> []
                 | Inr output \<Rightarrow> [\<lparr>role = ''assistant'', content = output\<rparr>]) \<and>
            stdout (fst (process a wb pb sta)) =
              stdout sta @ snd (build_file_context_message a (cwd_build wb)) \<and>
            rebuilds (stdout (fst (process a wb pb sta))) = rebuilds (stdout sta) + 1 \<and>
            last_sig (fst (process a wb pb sta)) = Some sig_b) \<and>
         (last_sig st = None \<longrightarrow>
            ctx sta =
              (case ra of None \<Rightarrow> [] | Some m \<Rightarrow> [m]) @
              filter (\<lambda>m. \<not> is_file_context m) (ctx st) @
              [\<lparr>role = ''user'', content = pa\<rparr>] @
                (case snd (process a wa pa st) of
                   Inl e \<Rightarrow> []
                 | Inr output \<Rightarrow> [\<lparr>role = ''assistant'', content = output\<rparr>]) \<and>
            stdout sta = stdout st @ snd (build_file_context_message a (cwd_build wa)) \<and>
            rebuilds (stdout sta) = rebuilds (stdout st) + 1 \<and>
            last_sig sta = Some sig_a)"
proof -
  have l1: "last_sig sta = Some sig_a"
  proof (cases "last_sig st = Some sig_a")
    case True
    then show ?thesis
      unfolding mid by (rule process_fresh_facts(3) [OF first])
  next
    case False
    with first_done have b: "fst (build_file_context_message a (cwd_build wa)) = Inr ra"
      by simp
    show ?thesis
      unfolding mid by (rule process_stale_facts(3) [OF first False b])
  qed
  have same: "ctx (fst (process a wb pb sta)) =
              ctx sta @ [\<lparr>role = ''user'', content = pb\<rparr>] @
                (case snd (process a wb pb sta) of
                   Inl e \<Rightarrow> []
                 | Inr output \<Rightarrow> [\<lparr>role = ''assistant'', content = output\<rparr>]) \<and>
            stdout (fst (process a wb pb sta)) = stdout sta \<and>
            rebuilds (stdout (fst (process a wb pb sta))) = rebuilds (stdout sta) \<and>
            last_sig (fst (process a wb pb sta)) = Some sig_a"
    if eq: "sig_b = sig_a"
  proof -
    have l: "last_sig sta = Some sig_b" using l1 eq by simp
    show ?thesis
      using process_fresh_facts(1-3) [OF second l, of pb] eq by simp
  qed
  have diff: "ctx (fst (process a wb pb sta)) =
              (case rb of None \<Rightarrow> [] | Some m \<Rightarrow> [m]) @
              filter (\<lambda>m. \<not> is_file_context m) (ctx sta) @
              [\<lparr>role = ''user'', content = pb\<rparr>] @
                (case snd (process a wb pb sta) of
                   Inl e \<Rightarrow> []
                 | Inr output \<Rightarrow> [\<lparr>role = ''assistant'', content = output\<rparr>]) \<and>
            stdout (fst (process a wb pb sta)) =
              stdout sta @ snd (build_file_context_message a (cwd_build wb)) \<and>
            rebuilds (stdout (fst (process a wb pb sta))) = rebuilds (stdout sta) + 1 \<and>
            last_sig (fst (process a wb pb sta)) = Some sig_b"
    if ne: "sig_b \<noteq> sig_a" and b: "fst (build_file_context_message a (cwd_build wb)) = Inr rb"
  proof -
    have l: "last_sig sta \<noteq> Some sig_b" using l1 ne by simp
    show ?thesis
      using process_stale_facts(1-3) [OF second l b, of pb] rebuilds_returned [OF b]
      by simp
  qed
  have init: "ctx sta =
              (case ra of None \<Rightarrow> [] | Some m \<Rightarrow> [m]) @
              filter (\<lambda>m. \<not> is_file_context m) (ctx st) @
              [\<lparr>role = ''user'', content = pa\<rparr>] @
                (case snd (process a wa pa st) of
                   Inl e \<Rightarrow> []
                 | Inr output \<Rightarrow> [\<lparr>role = ''assistant'', content = output\<rparr>]) \<and>
            stdout sta = stdout st @ snd (build_file_context_message a (cwd_build wa)) \<and>
            rebuilds (stdout sta) = rebuilds (stdout st) + 1 \<and>
            last_sig sta = Some sig_a"
    if n: "last_sig st = None"
  proof -
    have l: "last_sig st \<noteq> Some sig_a" using n by simp
    with first_done have b: "fst (build_file_context_message a (cwd_build wa)) = Inr ra"
      by simp
    show ?thesis
      unfolding mid
      using process_stale_facts(1-3) [OF first l b, of pa] rebuilds_returned [OF b]
      by simp
  qed
  from same diff init show ?thesis by blast
qed

theorem staleness_gating_witness:
  "rebuilds (stdout (fst (process ''agent.py'' (failing project) ''again''
       (fst (process ''agent.py'' (replying project) ''summarize'' initial_state))))) =
     rebuilds (stdout (fst (process ''agent.py'' (replying project) ''summarize'' initial_state))) \<and>
   ctx (fst (process ''agent.py'' (failing project) ''again''
       (fst (process ''agent.py'' (replying project) ''summarize'' initial_state)))) =
     ctx (fst (process ''agent.py'' (replying project) ''summarize'' initial_state)) @
     [\<lparr>role = ''user'', content = ''again''\<rparr>] @
     (case snd (process ''agent.py'' (failing project) ''again''
          (fst (process ''agent.py'' (replying project) ''summarize'' initial_state))) of
        Inl e \<Rightarrow> []
      | Inr output \<Rightarrow> [\<lparr>role = ''assistant'', content = output\<rparr>]) \<and>
   rebuilds (stdout (fst (process ''agent.py'' (replying project_without_notes) ''again''
       (fst (process ''agent.py'' (replying project) ''summarize'' initial_state))))) =
     rebuilds (stdout (fst (process ''agent.py'' (replying project) ''summarize'' initial_state))) + 1 \<and>
   last_sig (fst (process ''agent.py'' (replying project_without_notes) ''again''
       (fst (process ''agent.py'' (replying project) ''summarize'' initial_state)))) =
     Some [(''a.md'', 1000, 5)] \<and>
   rebuilds (stdout (fst (process ''agent.py'' (replying project) ''summarize'' initial_state))) =
     rebuilds (stdout initial_state) + 1 \<and>
   last_sig (fst (process ''agent.py'' (replying project) ''summarize'' initial_state)) =
     Some [(''a.md'', 1000, 5), (''notes.txt'', 2000, 5)]"
proof -
  let ?st1 = "fst (process ''agent.py'' (replying project) ''summarize'' initial_state)"
  let ?m = "\<lparr>role = ''system'',
            content = briefing_header ''/home/user/project'' @
              ''File: a.md'' @ [CHR 0x0A] @ ''---'' @ [CHR 0x0A] @ ''hello'' @ [CHR 0x0A]\<rparr>"
  have first: "directory_signature ''agent.py'' (cwd_sig (replying project)) =
      Inr [(''a.md'', 1000, 5), (''notes.txt'', 2000, 5)]"
    by (simp add: replying_def project_signature)
  have first_done: "last_sig initial_state = Some [(''a.md'', 1000, 5), (''notes.txt'', 2000, 5)] \<or>
      fst (build_file_context_message ''agent.py'' (cwd_build (replying project))) =
        Inr (Some briefing_hello_world)"
    by (simp add: replying_def project_build)
  have same: "directory_signature ''agent.py'' (cwd_sig (failing project)) =
      Inr [(''a.md'', 1000, 5), (''notes.txt'', 2000, 5)]"
    by (simp add: failing_def project_signature)
  have other: "directory_signature ''agent.py'' (cwd_sig (replying project_without_notes)) =
      Inr [(''a.md'', 1000, 5)]"
    by (simp add: replying_def project_without_notes_signature)
  have ne: "[(''a.md'', 1000, 5)] \<noteq> [(''a.md'', 1000::int, 5::int), (''notes.txt'', 2000, 5)]"
    by simp
  have b2: "fst (build_file_context_message ''agent.py'' (cwd_build (replying project_without_notes))) =
      Inr (Some ?m)"
    by (simp add: replying_def project_without_notes_build)
  have n: "last_sig initial_state = None"
    by (simp add: initial_state_def)
  note A = staleness_gating [OF first first_done refl same,
      where pa = "''summarize''" and pb = "''again''" and rb = "Some ?m"]
  note B = staleness_gating [OF first first_done refl other,
      where pa = "''summarize''" and pb = "''again''" and rb = "Some ?m"]
  from A have 1: "rebuilds (stdout (fst (process ''agent.py'' (failing project) ''again'' ?st1))) =
      rebuilds (stdout ?st1)"
    and 2: "ctx (fst (process ''agent.py'' (failing project) ''again'' ?st1)) =
      ctx ?st1 @ [\<lparr>role = ''user'', content = ''again''\<rparr>] @
      (case snd (process ''agent.py'' (failing project) ''again'' ?st1) of
         Inl e \<Rightarrow> []
       | Inr output \<Rightarrow> [\<lparr>role = ''assistant'', content = output\<rparr>])"
    by blast+
  from B ne b2
  have 3: "rebuilds (stdout (fst (process ''agent.py'' (replying project_without_notes) ''again''
        ?st1))) = rebuilds (stdout ?st1) + 1"
    and 4: "last_sig (fst (process ''agent.py'' (replying project_without_notes) ''again'' ?st1)) =
      Some [(''a.md'', 1000, 5)]"
    by blast+
  from A n
  have 5: "rebuilds (stdout ?st1) = rebuilds (stdout initial_state) + 1"
    and 6: "last_sig ?st1 = Some [(''a.md'', 1000, 5), (''notes.txt'', 2000, 5)]"
    by blast+
  from 1 2 3 4 5 6 show ?thesis by blast
qed

subsection \<open>The briefing\<close>

text \<open>
  C4. The briefing is a function of the directory path and of the names and texts of the
  files loaded: two listings on which no \<^verbatim>\<open>is_file()\<close> raises, with distinct names each,
  the same path and the same loaded files, give the same message (the build returns on
  both), whatever the order of the listings, the other entries in them and the files'
  metadata.
\<close>

theorem build_deterministic:
  assumes "iterdir d1 = Inr listing1" and "iterdir d2 = Inr listing2"
    and "\<forall>p \<in> set listing1. \<not> isl (is_file p)" and "\<forall>p \<in> set listing2. \<not> isl (is_file p)"
    and "distinct (map name listing1)" and "distinct (map name listing2)"
    and "path_str d1 = path_str d2"
    and "set (loaded_files a d1) = set (loaded_files a d2)"
  shows "fst (build_file_context_message a d1) = fst (build_file_context_message a d2) \<and>
         \<not> isl (fst (build_file_context_message a d1))"
proof -
  from listing_answers [OF assms(1) assms(3)]
  have a1: "answers d1" and e1: "entries d1 = listing1" by simp_all
  from listing_answers [OF assms(2) assms(4)]
  have a2: "answers d2" and e2: "entries d2 = listing2" by simp_all
  have L: "map (\<lambda>p. (name p, projr (read_text p))) (filter (readable a) (sort_key name (entries d1))) =
           map (\<lambda>p. (name p, projr (read_text p))) (filter (readable a) (sort_key name (entries d2)))"
    using assms(5,6,8) by (intro loaded_sorted_unique) (simp_all add: e1 e2)
  have B: "map block_of (filter (readable a) (sort_key name (entries d1))) =
           map block_of (filter (readable a) (sort_key name (entries d2)))"
    by (simp only: block_of_pair L)
  have "loaded_files a d1 = [] \<longleftrightarrow> loaded_files a d2 = []"
    using assms(8) by (metis set_empty)
  then have E: "filter (readable a) (entries d1) = [] \<longleftrightarrow> filter (readable a) (entries d2) = []"
    by (simp add: loaded_files_def)
  have "fst (build_file_context_message a d1) = fst (build_file_context_message a d2)"
    by (simp only: build_fst [OF a1] build_fst [OF a2] B E assms(7))
  moreover have "\<not> isl (fst (build_file_context_message a d1))"
    by (simp add: build_fst [OF a1])
  ultimately show ?thesis by simp
qed

theorem build_deterministic_witness:
  "iterdir project \<noteq> iterdir project_relisted \<and>
   fst (build_file_context_message ''agent.py'' project) =
     fst (build_file_context_message ''agent.py'' project_relisted) \<and>
   fst (build_file_context_message ''agent.py'' project) = Inr (Some briefing_hello_world)"
proof -
  let ?l2 = "[a_md\<lparr>stat := Inr (7000, 5)\<rparr>,
         \<lparr>name = ''photo.png'', is_file = Inr True, stat = Inr (10, 999), read_text = Inr ''PNG''\<rparr>,
         notes_txt]"
  have i1: "iterdir project = Inr [notes_txt, a_md]" by (simp add: project_def)
  have i2: "iterdir project_relisted = Inr ?l2" by (simp add: project_relisted_def)
  have f1: "\<forall>p \<in> set [notes_txt, a_md]. \<not> isl (is_file p)" by code_simp
  have f2: "\<forall>p \<in> set ?l2. \<not> isl (is_file p)" by code_simp
  have n1: "distinct (map name [notes_txt, a_md])" by code_simp
  have n2: "distinct (map name ?l2)" by code_simp
  have p: "path_str project = path_str project_relisted" by code_simp
  have l: "set (loaded_files ''agent.py'' project) = set (loaded_files ''agent.py'' project_relisted)"
    by code_simp
  have 5: "iterdir project \<noteq> iterdir project_relisted" by code_simp
  from build_deterministic [OF i1 i2 f1 f2 n1 n2 p l] 5 project_build show ?thesis by simp
qed

text \<open>
  C5. A file that passes the three tests and whose text is longer than
  \<^verbatim>\<open>MAX_FILE_CHARS\<close> = 8000 characters does not make the build fail: the pass of the loop
  over it raises nothing and goes on with the block of the file appended, and when the
  directory can be listed and no \<^verbatim>\<open>is_file()\<close> raises, the build returns a message of
  role system that starts with the tag and the directory and contains the text
  \<^verbatim>\<open>File: \<close>name, newline, \<^verbatim>\<open>---\<close>, newline, the first 8000 characters of the file's
  text, newline; after it the message ends or the next block begins. These are exactly
  8000 characters, a proper prefix of the text.
\<close>

theorem truncation:
  assumes "is_file p = Inr True" and "name p \<noteq> a"
    and "lower (path_suffix (name p)) \<in> INCLUDE_EXTENSIONS"
    and "read_text p = Inr text"
    and "length text > MAX_FILE_CHARS"
  shows "build_loop a (p # ps) included file_blocks printed =
           build_loop a ps (included @ [name p])
             (file_blocks @
              [''File: '' @ name p @ [CHR 0x0A] @ ''---'' @ [CHR 0x0A] @ take 8000 text @
               [CHR 0x0A]]) printed \<and>
         (iterdir d = Inr listing \<and> (\<forall>q \<in> set listing. \<not> isl (is_file q)) \<and> p \<in> set listing \<longrightarrow>
            (\<exists>m before after.
               build_file_context_message a d =
                 (Inr (Some m), snd (build_file_context_message a d)) \<and>
               role m = ''system'' \<and>
               content m =
                 before @
                 ''File: '' @ name p @ [CHR 0x0A] @ ''---'' @ [CHR 0x0A] @ take 8000 text @
                 [CHR 0x0A] @ after \<and>
               prefix (''__FILE_CONTEXT__'' @ [CHR 0x0A] @ ''Project directory: '' @ path_str d @
                 [CHR 0x0A]) before \<and>
               (after = [] \<or> prefix ([CHR 0x0A] @ ''File: '') after))) \<and>
         length (take 8000 text) = 8000 \<and> prefix (take 8000 text) text \<and> take 8000 text \<noteq> text"
proof -
  have b: "block_of p =
      ''File: '' @ name p @ [CHR 0x0A] @ ''---'' @ [CHR 0x0A] @ take 8000 text @ [CHR 0x0A]"
    using assms(4) by (simp add: block_of_def file_block_def MAX_FILE_CHARS_def)
  have step: "build_loop a (p # ps) included file_blocks printed =
           build_loop a ps (included @ [name p])
             (file_blocks @
              [''File: '' @ name p @ [CHR 0x0A] @ ''---'' @ [CHR 0x0A] @ take 8000 text @
               [CHR 0x0A]]) printed"
    using assms(1-4) by (simp add: file_block_def MAX_FILE_CHARS_def)
  have whole: "\<exists>m before after.
               build_file_context_message a d =
                 (Inr (Some m), snd (build_file_context_message a d)) \<and>
               role m = ''system'' \<and>
               content m =
                 before @
                 ''File: '' @ name p @ [CHR 0x0A] @ ''---'' @ [CHR 0x0A] @ take 8000 text @
                 [CHR 0x0A] @ after \<and>
               prefix (''__FILE_CONTEXT__'' @ [CHR 0x0A] @ ''Project directory: '' @ path_str d @
                 [CHR 0x0A]) before \<and>
               (after = [] \<or> prefix ([CHR 0x0A] @ ''File: '') after)"
    if i: "iterdir d = Inr listing" and f: "\<forall>q \<in> set listing. \<not> isl (is_file q)"
      and m: "p \<in> set listing"
  proof -
    from listing_answers [OF i f] have a: "answers d" and e: "entries d = listing" by simp_all
    have r: "readable a p"
      using assms by (simp add: readable_def eligible_def)
    with m have "p \<in> set (filter (readable a) (sort_key name (entries d)))"
      by (simp add: e)
    then obtain ys zs where split: "filter (readable a) (sort_key name (entries d)) = ys @ p # zs"
      by (meson split_list)
    have ne: "filter (readable a) (entries d) \<noteq> []"
      using r m by (auto simp: e filter_empty_conv)
    let ?before = "briefing_header (path_str d) @
        concat (map (\<lambda>y. y @ [CHR 0x0A]) (map block_of ys))"
    let ?after = "concat (map (\<lambda>z. CHR 0x0A # z) (map block_of zs))"
    let ?m = "\<lparr>role = ''system'', content = ?before @ block_of p @ ?after\<rparr>"
    have j: "join_nl (map block_of (ys @ p # zs)) =
        concat (map (\<lambda>y. y @ [CHR 0x0A]) (map block_of ys)) @ block_of p @ ?after"
      using join_nl_concat [of "map block_of ys" "block_of p" "map block_of zs"] by simp
    have "fst (build_file_context_message a d) =
        Inr (Some \<lparr>role = ''system'',
               content = briefing_header (path_str d) @ join_nl (map block_of (ys @ p # zs))\<rparr>)"
      by (simp only: build_fst [OF a] split ne if_False)
    then have fs: "fst (build_file_context_message a d) = Inr (Some ?m)"
      by (simp only: j append_assoc)
    then have 1: "build_file_context_message a d =
        (Inr (Some ?m), snd (build_file_context_message a d))"
      by (simp add: prod_eq_iff)
    have 2: "role ?m = ''system''" by simp
    have 3: "content ?m = ?before @
        ''File: '' @ name p @ [CHR 0x0A] @ ''---'' @ [CHR 0x0A] @ take 8000 text @
        [CHR 0x0A] @ ?after"
      by (simp add: b)
    have 4: "prefix (''__FILE_CONTEXT__'' @ [CHR 0x0A] @ ''Project directory: '' @ path_str d @
        [CHR 0x0A]) ?before"
      by (simp add: briefing_header_def FILE_CONTEXT_TAG_def)
    have 5: "?after = [] \<or> prefix ([CHR 0x0A] @ ''File: '') ?after"
      by (rule blocks_after)
    from 1 2 3 4 5 show ?thesis by blast
  qed
  have len: "length (take 8000 text) = 8000"
    using assms(5) by (simp add: MAX_FILE_CHARS_def)
  have pre: "prefix (take 8000 text) text"
    by (rule take_is_prefix)
  have neq: "take 8000 text \<noteq> text"
    using assms(5) len by (metis MAX_FILE_CHARS_def less_irrefl)
  from step whole len pre neq show ?thesis by blast
qed

theorem truncation_witness:
  "\<exists>m before after.
     fst (build_file_context_message ''agent.py'' long_project) = Inr (Some m) \<and>
     content m =
       before @
       ''File: big.txt'' @ [CHR 0x0A] @ ''---'' @ [CHR 0x0A] @ replicate 8000 CHR ''x'' @
       [CHR 0x0A] @ after \<and>
     (after = [] \<or> prefix ([CHR 0x0A] @ ''File: '') after)"
proof -
  have 1: "is_file big_txt = Inr True" by (simp add: big_txt_def)
  have 2: "name big_txt \<noteq> ''agent.py''" by (simp add: big_txt_def)
  have 3: "lower (path_suffix (name big_txt)) \<in> INCLUDE_EXTENSIONS" by code_simp
  have 4: "read_text big_txt = Inr (replicate 8001 CHR ''x'')" by (simp add: big_txt_def)
  have 5: "length (replicate 8001 CHR ''x'') > MAX_FILE_CHARS" by (simp add: MAX_FILE_CHARS_def)
  have n: "name big_txt = ''big.txt''" by (simp add: big_txt_def)
  have i: "iterdir long_project = Inr [notes_txt, big_txt]" by (simp add: long_project_def)
  have f: "\<forall>q \<in> set [notes_txt, big_txt]. \<not> isl (is_file q)" by code_simp
  have m: "big_txt \<in> set [notes_txt, big_txt]" by simp
  from truncation [OF 1 2 3 4 5, of "[]" "[]" "[]" "[]" long_project "[notes_txt, big_txt]"] i f m
  obtain msg before after where
    b: "build_file_context_message ''agent.py'' long_project =
          (Inr (Some msg), snd (build_file_context_message ''agent.py'' long_project))"
    and c: "content msg =
          before @
          ''File: '' @ name big_txt @ [CHR 0x0A] @ ''---'' @ [CHR 0x0A] @
          take 8000 (replicate 8001 CHR ''x'') @ [CHR 0x0A] @ after"
    and a: "after = [] \<or> prefix ([CHR 0x0A] @ ''File: '') after"
    by blast
  from b have "fst (build_file_context_message ''agent.py'' long_project) = Inr (Some msg)"
    by (metis fst_conv)
  moreover from c have "content msg =
       before @
       ''File: big.txt'' @ [CHR 0x0A] @ ''---'' @ [CHR 0x0A] @ replicate 8000 CHR ''x'' @
       [CHR 0x0A] @ after"
    by (simp add: n)
  ultimately show ?thesis using a by blast
qed

text \<open>
  C6. When every file of the listing that passes the three tests fails to be read (in
  particular when no file passes them), the build returns \<^verbatim>\<open>None\<close>, and a reload then
  returns and leaves the store without any file-context entry: it is the old store
  without its file-context entries.
\<close>

theorem no_briefing:
  assumes "iterdir d = Inr listing"
    and "\<forall>p \<in> set listing. \<not> isl (is_file p)"
    and "\<forall>p \<in> set listing.
           is_file p = Inr True \<and> name p \<noteq> a \<and>
           lower (path_suffix (name p)) \<in> INCLUDE_EXTENSIONS \<longrightarrow> isl (read_text p)"
  shows "fst (build_file_context_message a d) = Inr None \<and>
         snd (reload_file_context a d st) = None \<and>
         ctx (fst (reload_file_context a d st)) = filter (\<lambda>m. \<not> is_file_context m) (ctx st) \<and>
         filter is_file_context (ctx (fst (reload_file_context a d st))) = []"
proof -
  from listing_answers [OF assms(1) assms(2)]
  have a: "answers d" and e: "entries d = listing" by simp_all
  have "filter (readable a) (entries d) = []"
    using assms(3) by (auto simp: e filter_empty_conv readable_def eligible_def)
  then have n: "fst (build_file_context_message a d) = Inr None"
    by (simp add: build_fst [OF a])
  then show ?thesis
    by (simp add: reload_ctx reload_snd briefing_of_def)
qed

theorem no_briefing_witness:
  "fst (build_file_context_message ''agent.py'' locked_project) = Inr None \<and>
   ctx (fst (reload_file_context ''agent.py'' locked_project
          (fst (process ''agent.py'' (replying project) ''summarize'' initial_state)))) =
     [\<lparr>role = ''user'', content = ''summarize''\<rparr>, \<lparr>role = ''assistant'', content = ''reply''\<rparr>]"
proof -
  let ?l = "[\<lparr>name = ''secret.txt'', is_file = Inr True, stat = Inr (1, 3),
            read_text = Inl ''Permission denied''\<rparr>,
         \<lparr>name = ''agent.py'', is_file = Inr True, stat = Inr (2, 4), read_text = Inr ''code''\<rparr>,
         \<lparr>name = ''docs.md'', is_file = Inr False, stat = Inr (3, 0),
            read_text = Inl ''Is a directory''\<rparr>]"
  have i: "iterdir locked_project = Inr ?l" by (simp add: locked_project_def)
  have f: "\<forall>p \<in> set ?l. \<not> isl (is_file p)" by code_simp
  have h: "\<forall>p \<in> set ?l.
             is_file p = Inr True \<and> name p \<noteq> ''agent.py'' \<and>
             lower (path_suffix (name p)) \<in> INCLUDE_EXTENSIONS \<longrightarrow> isl (read_text p)"
    by code_simp
  have c: "filter (\<lambda>m. \<not> is_file_context m)
        (ctx (fst (process ''agent.py'' (replying project) ''summarize'' initial_state))) =
      [\<lparr>role = ''user'', content = ''summarize''\<rparr>, \<lparr>role = ''assistant'', content = ''reply''\<rparr>]"
    by code_simp
  from no_briefing [OF i f h] c show ?thesis
    by simp
qed

subsection \<open>A failing model call\<close>

text \<open>
  C7. Let \<open>pre\<close> be the store after the staleness check of a turn that got past the
  check. If the model call raises on \<open>pre\<close> followed by the user entry, then
  \<^verbatim>\<open>process\<close> raises the same exception and the store is \<open>pre\<close> followed by the user
  entry: no assistant entry was added, and the entries that are not file context are
  those of before, in order, and the user entry.
\<close>

theorem call_failure:
  assumes sig: "directory_signature a (cwd_sig w) = Inr sig"
    and checked: "last_sig st = Some sig \<or>
      fst (build_file_context_message a (cwd_build w)) = Inr r"
    and pre: "pre = ctx (if last_sig st = Some sig then st
                         else fst (reload_file_context a (cwd_build w) st))"
    and raises: "respond w (pre @ [\<lparr>role = ''user'', content = prompt\<rparr>]) = Inl e"
  shows "snd (process a w prompt st) = Inl e \<and>
         ctx (fst (process a w prompt st)) = pre @ [\<lparr>role = ''user'', content = prompt\<rparr>] \<and>
         filter (\<lambda>m. role m = ''assistant'') (ctx (fst (process a w prompt st))) =
           filter (\<lambda>m. role m = ''assistant'') (ctx st) \<and>
         filter (\<lambda>m. \<not> is_file_context m) (ctx (fst (process a w prompt st))) =
           filter (\<lambda>m. \<not> is_file_context m) (ctx st) @ [\<lparr>role = ''user'', content = prompt\<rparr>]"
proof (cases "last_sig st = Some sig")
  case True
  with pre have p: "pre = ctx st" by simp
  have s: "snd (process a w prompt st) = Inl e"
    using process_fresh_facts(4) [OF sig True, of prompt] raises p by simp
  have c: "ctx (fst (process a w prompt st)) = pre @ [\<lparr>role = ''user'', content = prompt\<rparr>]"
    using process_fresh_facts(1) [OF sig True, of prompt] s p by simp
  show ?thesis
    using s c by (simp add: p)
next
  case False
  with checked have b: "fst (build_file_context_message a (cwd_build w)) = Inr r" by simp
  from False pre have p: "pre = ctx (fst (reload_file_context a (cwd_build w) st))" by simp
  have s: "snd (process a w prompt st) = Inl e"
    using process_stale_facts(4) [OF sig False b, of prompt] raises p by simp
  have c: "ctx (fst (process a w prompt st)) = pre @ [\<lparr>role = ''user'', content = prompt\<rparr>]"
    using process_stale_facts(1) [OF sig False b, of prompt] s p b
    by (simp add: reload_ctx briefing_of_def split: option.splits)
  have a1: "filter (\<lambda>m. role m = ''assistant'') pre = filter (\<lambda>m. role m = ''assistant'') (ctx st)"
    by (simp add: p reload_ctx briefing_of_no_assistant untagged_assistant del: filter_filter)
  have u: "filter (\<lambda>m. \<not> is_file_context m) pre = filter (\<lambda>m. \<not> is_file_context m) (ctx st)"
    by (simp add: p reload_untagged)
  show ?thesis
    using s c a1 u by simp
qed

theorem call_failure_witness:
  "snd (process ''agent.py'' (failing project_without_notes) ''again''
     (fst (process ''agent.py'' (replying project) ''summarize'' initial_state))) =
     Inl (Error ''timeout'') \<and>
   filter (\<lambda>m. \<not> is_file_context m)
     (ctx (fst (process ''agent.py'' (failing project_without_notes) ''again''
       (fst (process ''agent.py'' (replying project) ''summarize'' initial_state))))) =
   [\<lparr>role = ''user'', content = ''summarize''\<rparr>, \<lparr>role = ''assistant'', content = ''reply''\<rparr>,
    \<lparr>role = ''user'', content = ''again''\<rparr>]"
proof -
  let ?st = "fst (process ''agent.py'' (replying project) ''summarize'' initial_state)"
  let ?w = "failing project_without_notes"
  let ?m = "\<lparr>role = ''system'',
            content = briefing_header ''/home/user/project'' @
              ''File: a.md'' @ [CHR 0x0A] @ ''---'' @ [CHR 0x0A] @ ''hello'' @ [CHR 0x0A]\<rparr>"
  define pre where "pre = ctx (if last_sig ?st = Some [(''a.md'', 1000, 5)]
     then ?st else fst (reload_file_context ''agent.py'' (cwd_build ?w) ?st))"
  have sig: "directory_signature ''agent.py'' (cwd_sig ?w) = Inr [(''a.md'', 1000, 5)]"
    by (simp add: failing_def project_without_notes_signature)
  have checked: "last_sig ?st = Some [(''a.md'', 1000, 5)] \<or>
      fst (build_file_context_message ''agent.py'' (cwd_build ?w)) = Inr (Some ?m)"
    by (simp add: failing_def project_without_notes_build)
  have r: "respond ?w (pre @ [\<lparr>role = ''user'', content = ''again''\<rparr>]) = Inl (Error ''timeout'')"
    by (simp add: failing_def)
  have c: "filter (\<lambda>m. \<not> is_file_context m) (ctx ?st) =
      [\<lparr>role = ''user'', content = ''summarize''\<rparr>, \<lparr>role = ''assistant'', content = ''reply''\<rparr>]"
    by code_simp
  from call_failure [OF sig checked pre_def r]
  have s: "snd (process ''agent.py'' ?w ''again'' ?st) = Inl (Error ''timeout'')"
    and u: "filter (\<lambda>m. \<not> is_file_context m) (ctx (fst (process ''agent.py'' ?w ''again'' ?st))) =
      filter (\<lambda>m. \<not> is_file_context m) (ctx ?st) @ [\<lparr>role = ''user'', content = ''again''\<rparr>]"
    by blast+
  show ?thesis
    unfolding u c using s by simp
qed

subsection \<open>The directory snapshot\<close>

text \<open>
  C8 (as the code has it). When the directory can be listed and no \<^verbatim>\<open>is_file()\<close>
  raises, \<^verbatim>\<open>directory_signature\<close> returns, and the snapshot is exactly the sequence,
  sorted by name, of the triples (name, modification time, size) of the entries that
  \<^verbatim>\<open>is_file()\<close> reports as regular files, that are not named like the agent's own file,
  whose suffix in lower case is one of the eight extensions, and whose \<^verbatim>\<open>stat()\<close>
  succeeded. With the names of the listing distinct, so are the names of the snapshot,
  and an entry whose \<^verbatim>\<open>stat()\<close> raised has no triple in it: it is skipped.
\<close>

theorem snapshot_contents:
  assumes "iterdir d = Inr listing" and "\<forall>p \<in> set listing. \<not> isl (is_file p)"
  shows "\<exists>sig.
     directory_signature a d = Inr sig \<and>
     sig =
       map (\<lambda>p. (name p, projr (stat p)))
         (filter (\<lambda>p. is_file p = Inr True \<and> name p \<noteq> a \<and>
              lower (path_suffix (name p)) \<in>
                {''.txt'', ''.md'', ''.py'', ''.json'', ''.yaml'', ''.yml'', ''.tf'', ''.tfvars''} \<and>
              \<not> isl (stat p))
            (sort_key name listing)) \<and>
     set sig =
       {(name p, mtime, sz) | p mtime sz.
          p \<in> set listing \<and> is_file p = Inr True \<and> name p \<noteq> a \<and>
          lower (path_suffix (name p)) \<in>
            {''.txt'', ''.md'', ''.py'', ''.json'', ''.yaml'', ''.yml'', ''.tf'', ''.tfvars''} \<and>
          stat p = Inr (mtime, sz)} \<and>
     sorted (map fst sig) \<and>
     (distinct (map name listing) \<longrightarrow> distinct (map fst sig)) \<and>
     (\<forall>p \<in> set listing.
        distinct (map name listing) \<and> isl (stat p) \<longrightarrow> name p \<notin> fst ` set sig)"
proof -
  from listing_answers [OF assms] have a: "answers d" and e: "entries d = listing" by simp_all
  let ?ok = "\<lambda>p. eligible a p \<and> \<not> isl (stat p)"
  let ?sig = "map (\<lambda>p. (name p, projr (stat p))) (filter ?ok (sort_key name listing))"
  have ds: "directory_signature a d = Inr ?sig"
    by (simp add: directory_signature_eq [OF a] e)
  have ok: "?ok = (\<lambda>p. is_file p = Inr True \<and> name p \<noteq> a \<and>
              lower (path_suffix (name p)) \<in>
                {''.txt'', ''.md'', ''.py'', ''.json'', ''.yaml'', ''.yml'', ''.tf'', ''.tfvars''} \<and>
              \<not> isl (stat p))"
    by (simp add: eligible_def INCLUDE_EXTENSIONS_def)
  have m: "map fst ?sig = map name (filter ?ok (sort_key name listing))"
    by (simp add: comp_def)
  have s: "sorted (map fst ?sig)"
    unfolding m by (rule sorted_loaded)
  have dd: "distinct (map fst ?sig)" if "distinct (map name listing)"
    unfolding m by (rule distinct_loaded [OF that])
  have r: "\<not> isl (stat p) \<and> projr (stat p) = (mt, z) \<longleftrightarrow> stat p = Inr (mt, z)" for p mt z
    by (cases "stat p") auto
  have st: "set ?sig =
      {(name p, mtime, sz) | p mtime sz.
         p \<in> set listing \<and> eligible a p \<and> stat p = Inr (mtime, sz)}"
    (is "?A = ?B")
  proof (rule set_eqI)
    fix x :: "string \<times> int \<times> int"
    obtain n mt z where x: "x = (n, mt, z)" by (cases x)
    have "x \<in> ?A \<longleftrightarrow>
        (\<exists>p. p \<in> set listing \<and> eligible a p \<and> \<not> isl (stat p) \<and> n = name p \<and>
           projr (stat p) = (mt, z))"
      by (auto simp: x image_iff)
    also have "\<dots> \<longleftrightarrow> (\<exists>p. p \<in> set listing \<and> eligible a p \<and> n = name p \<and> stat p = Inr (mt, z))"
      using r by blast
    also have "\<dots> \<longleftrightarrow> x \<in> ?B"
      by (auto simp: x)
    finally show "x \<in> ?A \<longleftrightarrow> x \<in> ?B" .
  qed
  have skip: "name p \<notin> fst ` set ?sig"
    if "p \<in> set listing" and "distinct (map name listing)" and "isl (stat p)" for p
  proof
    assume "name p \<in> fst ` set ?sig"
    then obtain q where q: "q \<in> set listing" "\<not> isl (stat q)" "name q = name p"
      by (auto simp: image_iff)
    from that(2) have "inj_on name (set listing)" by (simp add: distinct_map)
    with q(1,3) that(1) have "q = p" by (auto dest: inj_onD)
    with q(2) that(3) show False by simp
  qed
  have st': "set ?sig =
       {(name p, mtime, sz) | p mtime sz.
          p \<in> set listing \<and> is_file p = Inr True \<and> name p \<noteq> a \<and>
          lower (path_suffix (name p)) \<in>
            {''.txt'', ''.md'', ''.py'', ''.json'', ''.yaml'', ''.yml'', ''.tf'', ''.tfvars''} \<and>
          stat p = Inr (mtime, sz)}"
    unfolding st by (simp add: eligible_def INCLUDE_EXTENSIONS_def)
  have eq: "?sig = map (\<lambda>p. (name p, projr (stat p)))
         (filter (\<lambda>p. is_file p = Inr True \<and> name p \<noteq> a \<and>
              lower (path_suffix (name p)) \<in>
                {''.txt'', ''.md'', ''.py'', ''.json'', ''.yaml'', ''.yml'', ''.tf'', ''.tfvars''} \<and>
              \<not> isl (stat p))
            (sort_key name listing))"
    by (simp only: ok)
  from ds eq st' s dd skip show ?thesis by blast
qed

theorem snapshot_contents_witness:
  "directory_signature ''agent.py'' mixed_project =
     Inr [(''README.MD'', 500, 12), (''notes.txt'', 2000, 5)]"
proof -
  let ?l = "[\<lparr>name = ''notes.txt'', is_file = Inr True, stat = Inr (2000, 5),
            read_text = Inr ''world''\<rparr>,
         \<lparr>name = ''gone.json'', is_file = Inr True, stat = Inl ''No such file or directory'',
            read_text = Inl ''No such file or directory''\<rparr>,
         \<lparr>name = ''lost.yaml'', is_file = Inr False, stat = Inl ''No such file or directory'',
            read_text = Inl ''No such file or directory''\<rparr>,
         \<lparr>name = ''agent.py'', is_file = Inr True, stat = Inr (2, 4), read_text = Inr ''code''\<rparr>,
         \<lparr>name = ''README.MD'', is_file = Inr True, stat = Inr (500, 12),
            read_text = Inr ''# Title''\<rparr>,
         \<lparr>name = ''photo.png'', is_file = Inr True, stat = Inr (10, 999), read_text = Inr ''PNG''\<rparr>,
         \<lparr>name = ''sub.yml'', is_file = Inr False, stat = Inr (3, 0),
            read_text = Inl ''Is a directory''\<rparr>,
         \<lparr>name = ''.tf'', is_file = Inr True, stat = Inr (4, 1), read_text = Inr ''x''\<rparr>]"
  have i: "iterdir mixed_project = Inr ?l" by (simp add: mixed_project_def)
  have f: "\<forall>p \<in> set ?l. \<not> isl (is_file p)" by code_simp
  have v: "map (\<lambda>p. (name p, projr (stat p)))
         (filter (\<lambda>p. is_file p = Inr True \<and> name p \<noteq> ''agent.py'' \<and>
              lower (path_suffix (name p)) \<in>
                {''.txt'', ''.md'', ''.py'', ''.json'', ''.yaml'', ''.yml'', ''.tf'', ''.tfvars''} \<and>
              \<not> isl (stat p))
            (sort_key name ?l)) = [(''README.MD'', 500, 12), (''notes.txt'', 2000, 5)]"
    by code_simp
  from snapshot_contents [OF i f, of "''agent.py''"] v show ?thesis
    by auto
qed

text \<open>
  C8 as stated, refuted: the directory holds a file that may not be examined, so that
  its \<^verbatim>\<open>stat\<close> fails with a permission error; \<^verbatim>\<open>is_file()\<close>, which stands outside the
  \<^verbatim>\<open>try\<close>, raises that error, and \<^verbatim>\<open>directory_signature\<close> raises it instead of skipping
  the file.
\<close>

theorem is_file_raises:
  "iterdir guarded_project = Inr [a_md, guarded_txt] \<and> isl (stat guarded_txt) \<and>
   directory_signature ''agent.py'' guarded_project = Inl (Error ''Permission denied'')"
  by code_simp

subsection \<open>Reloading twice\<close>

text \<open>
  C9. Two reloads in a row over the same directory: the second leaves the store as the
  first left it, so the file-context entries after both are equal; and when the build
  yields a message, both reloads return, and that message (of role system) is the one
  file-context entry of the store and stands at index 0.
\<close>

theorem reload_idempotent:
  "ctx (fst (reload_file_context a d (fst (reload_file_context a d st)))) =
     ctx (fst (reload_file_context a d st)) \<and>
   filter is_file_context (ctx (fst (reload_file_context a d (fst (reload_file_context a d st))))) =
     filter is_file_context (ctx (fst (reload_file_context a d st))) \<and>
   (fst (build_file_context_message a d) = Inr (Some m) \<longrightarrow>
      role m = ''system'' \<and>
      snd (reload_file_context a d st) = None \<and>
      snd (reload_file_context a d (fst (reload_file_context a d st))) = None \<and>
      ctx (fst (reload_file_context a d (fst (reload_file_context a d st)))) =
        m # filter (\<lambda>m. \<not> is_file_context m) (ctx st) \<and>
      filter is_file_context
        (ctx (fst (reload_file_context a d (fst (reload_file_context a d st))))) = [m])"
proof -
  have i: "ctx (fst (reload_file_context a d (fst (reload_file_context a d st)))) =
      ctx (fst (reload_file_context a d st))"
    by (simp add: reload_ctx briefing_of_untagged del: filter_filter)
  have t: "filter is_file_context (ctx (fst (reload_file_context a d st))) = briefing_of a d"
    by (simp add: reload_ctx briefing_of_tagged del: filter_filter)
  have "role m = ''system''" if "fst (build_file_context_message a d) = Inr (Some m)"
    using build_tagged [OF that] by (simp add: is_file_context_def)
  then show ?thesis
    unfolding i t by (simp add: reload_ctx reload_snd briefing_of_def)
qed

theorem reload_idempotent_witness:
  "fst (build_file_context_message ''agent.py'' project) = Inr (Some briefing_hello_world) \<and>
   ctx (fst (reload_file_context ''agent.py'' project
          (fst (reload_file_context ''agent.py'' project
             \<lparr>ctx = [foreign_entry, \<lparr>role = ''user'', content = ''hi''\<rparr>],
                last_sig = None, stdout = []\<rparr>)))) =
     [briefing_hello_world, \<lparr>role = ''user'', content = ''hi''\<rparr>]"
proof -
  let ?st = "\<lparr>ctx = [foreign_entry, \<lparr>role = ''user'', content = ''hi''\<rparr>],
                last_sig = None, stdout = []\<rparr>"
  have b: "fst (build_file_context_message ''agent.py'' project) = Inr (Some briefing_hello_world)"
    by (simp add: project_build)
  have f: "filter (\<lambda>m. \<not> is_file_context m) (ctx ?st) = [\<lparr>role = ''user'', content = ''hi''\<rparr>]"
    by code_simp
  from reload_idempotent [of "''agent.py''" project ?st briefing_hello_world] b
  have "ctx (fst (reload_file_context ''agent.py'' project
          (fst (reload_file_context ''agent.py'' project ?st)))) =
      briefing_hello_world # filter (\<lambda>m. \<not> is_file_context m) (ctx ?st)"
    by blast
  with b f show ?thesis by simp
qed

subsection \<open>Identification by prefix\<close>

text \<open>
  C10. A reload keeps exactly the entries that are not both of role system and starting
  with \<^verbatim>\<open>__FILE_CONTEXT__\<close>, behind the new briefing if there is one. So a system entry
  that starts with the marker is no longer in the store after a reload, wherever it came
  from, unless it is the new briefing itself.
\<close>

theorem reload_removes_by_prefix:
  "ctx (fst (reload_file_context a d st)) =
     (case fst (build_file_context_message a d) of
        Inr (Some m) \<Rightarrow> [m]
      | _ \<Rightarrow> []) @
     filter (\<lambda>m. \<not> (role m = ''system'' \<and> prefix ''__FILE_CONTEXT__'' (content m))) (ctx st) \<and>
   (x \<in> set (ctx st) \<and> role x = ''system'' \<and> prefix ''__FILE_CONTEXT__'' (content x) \<and>
    fst (build_file_context_message a d) \<noteq> Inr (Some x) \<longrightarrow>
      x \<notin> set (ctx (fst (reload_file_context a d st))))"
proof -
  have e: "ctx (fst (reload_file_context a d st)) =
     (case fst (build_file_context_message a d) of
        Inr (Some m) \<Rightarrow> [m]
      | _ \<Rightarrow> []) @
     filter (\<lambda>m. \<not> (role m = ''system'' \<and> prefix ''__FILE_CONTEXT__'' (content m))) (ctx st)"
    using reload_ctx [of a d st]
    by (simp add: briefing_of_def is_file_context_def FILE_CONTEXT_TAG_def)
  show ?thesis
    unfolding e by (auto split: option.splits sum.splits)
qed

theorem reload_removes_by_prefix_witness:
  "foreign_entry \<in> set [foreign_entry, \<lparr>role = ''user'', content = ''hi''\<rparr>] \<and>
   role foreign_entry = ''system'' \<and> prefix ''__FILE_CONTEXT__'' (content foreign_entry) \<and>
   fst (build_file_context_message ''agent.py'' project) \<noteq> Inr (Some foreign_entry) \<and>
   foreign_entry \<notin> set (ctx (fst (reload_file_context ''agent.py'' project
     \<lparr>ctx = [foreign_entry, \<lparr>role = ''user'', content = ''hi''\<rparr>], last_sig = None, stdout = []\<rparr>)))"
proof -
  let ?st = "\<lparr>ctx = [foreign_entry, \<lparr>role = ''user'', content = ''hi''\<rparr>],
                last_sig = None, stdout = []\<rparr>"
  have 1: "foreign_entry \<in> set (ctx ?st)" by simp
  have 2: "role foreign_entry = ''system''" by (simp add: foreign_entry_def)
  have 3: "prefix ''__FILE_CONTEXT__'' (content foreign_entry)" by code_simp
  have 4: "fst (build_file_context_message ''agent.py'' project) \<noteq> Inr (Some foreign_entry)"
    by code_simp
  from reload_removes_by_prefix [of "''agent.py''" project ?st foreign_entry] 1 2 3 4
  have "foreign_entry \<notin> set (ctx (fst (reload_file_context ''agent.py'' project ?st)))"
    by blast
  with 1 2 3 4 show ?thesis by simp
qed

end
